theory Spec2Isabelle
  imports Complex_Main "HOL-Library.Log_Nat"
begin

section \<open>Python values used by \<^verbatim>\<open>Spellman.py\<close>\<close>

text \<open>
  The exceptions the device server can raise. \<open>NameError\<close> is what the statement
  \<^verbatim>\<open>raise SocketError\<close> of \<^verbatim>\<open>receive\<close> produces: the module neither defines nor imports
  a name \<^verbatim>\<open>SocketError\<close>, so evaluating it raises \<^verbatim>\<open>NameError\<close>. \<open>ValueError\<close> is raised
  by \<^verbatim>\<open>set_voltage\<close> and \<^verbatim>\<open>set_current\<close> on an unexpected response (and by
  \<^verbatim>\<open>math.floor\<close> on a NaN), \<open>OverflowError\<close> by \<^verbatim>\<open>math.floor\<close> on an infinity and by
  the conversion of a too large \<^verbatim>\<open>int\<close> to \<^verbatim>\<open>float\<close>. The two \<^verbatim>\<open>DACError\<close> subclasses
  carry the offending DAC value.
\<close>

datatype error =
    NameError
  | UnicodeDecodeError
  | ZeroDivisionError
  | OverflowError
  | ValueError
  | VoltageExceededError int
  | CurrentExceededError int

text \<open>
  \<^verbatim>\<open>bytes\<close> are lists of 8-bit characters. A Python \<^verbatim>\<open>str\<close> is a list of Unicode code
  points; \<open>str\<close> writes an ASCII literal as such a list.
\<close>

type_synonym bytes = "char list"
type_synonym pystr = "nat list"

definition str :: "string \<Rightarrow> pystr" where
  "str s = map of_char s"

definition LF :: char where
  "LF = CHR 0x0A"

subsection \<open>\<^verbatim>\<open>bytes.decode()\<close>: strict UTF-8\<close>

definition cont :: "nat \<Rightarrow> bool" where
  "cont b \<longleftrightarrow> 128 \<le> b \<and> b \<le> 191"

text \<open>The admissible range of the second byte after the lead byte \<open>b0\<close>.\<close>

definition second_ok :: "nat \<Rightarrow> nat \<Rightarrow> bool" where
  "second_ok b0 b1 \<longleftrightarrow>
     (if b0 = 224 then 160 \<le> b1 \<and> b1 \<le> 191
      else if b0 = 237 then 128 \<le> b1 \<and> b1 \<le> 159
      else if b0 = 240 then 144 \<le> b1 \<and> b1 \<le> 191
      else if b0 = 244 then 128 \<le> b1 \<and> b1 \<le> 143
      else cont b1)"

fun utf8 :: "nat list \<Rightarrow> pystr option" where
  "utf8 [] = Some []"
| "utf8 (b0 # bs) =
     (if b0 < 128 then map_option ((#) b0) (utf8 bs)
      else if 194 \<le> b0 \<and> b0 \<le> 223 then
        (case bs of
           b1 # r \<Rightarrow>
             if cont b1
             then map_option ((#) ((b0 - 192) * 64 + (b1 - 128))) (utf8 r)
             else None
         | _ \<Rightarrow> None)
      else if 224 \<le> b0 \<and> b0 \<le> 239 then
        (case bs of
           b1 # b2 # r \<Rightarrow>
             if second_ok b0 b1 \<and> cont b2
             then map_option
                    ((#) ((b0 - 224) * 4096 + (b1 - 128) * 64 + (b2 - 128))) (utf8 r)
             else None
         | _ \<Rightarrow> None)
      else if 240 \<le> b0 \<and> b0 \<le> 244 then
        (case bs of
           b1 # b2 # b3 # r \<Rightarrow>
             if second_ok b0 b1 \<and> cont b2 \<and> cont b3
             then map_option
                    ((#) ((b0 - 240) * 262144 + (b1 - 128) * 4096
                          + (b2 - 128) * 64 + (b3 - 128))) (utf8 r)
             else None
         | _ \<Rightarrow> None)
      else None)"

definition decode :: "bytes \<Rightarrow> error + pystr" where
  "decode bs = (case utf8 (map of_char bs) of
                  None \<Rightarrow> Inl UnicodeDecodeError
                | Some s \<Rightarrow> Inr s)"

subsection \<open>\<^verbatim>\<open>bytes.split(sep)\<close> for a one-byte separator\<close>

fun split :: "char \<Rightarrow> bytes \<Rightarrow> bytes list" where
  "split sep [] = [[]]"
| "split sep (c # cs) =
     (if c = sep then [] # split sep cs
      else (case split sep cs of
              [] \<Rightarrow> [[c]]
            | s # ss \<Rightarrow> (c # s) # ss))"

section \<open>\<^verbatim>\<open>SpellmanEthernetInterface\<close>\<close>

text \<open>
  The socket is modelled by what the peer will deliver and what has been written to it.
  \<open>inbox\<close> lists the segments in the order in which they become available; one call of
  \<^verbatim>\<open>recv(n)\<close> returns at most \<open>n\<close> bytes of the first segment and leaves the remainder
  of that segment in the socket. An empty \<open>inbox\<close> is a connection closed by the peer,
  where \<^verbatim>\<open>recv\<close> returns \<^verbatim>\<open>b''\<close>. \<open>sent\<close> lists the frames written, oldest first. The
  commands of this program are ASCII, for which \<^verbatim>\<open>str.encode()\<close> is the identity, so
  a command string is written as the bytes it encodes to. The delay
  \<^verbatim>\<open>sleep(0.01)\<close> has no effect on the values and is left out.
\<close>

record connection =
  inbox :: "bytes list"
  sent :: "bytes list"

definition recv :: "nat \<Rightarrow> connection \<Rightarrow> bytes \<times> connection" where
  "recv n conn =
     (case inbox conn of
        [] \<Rightarrow> ([], conn)
      | seg # segs \<Rightarrow>
          if length seg \<le> n then (seg, conn\<lparr>inbox := segs\<rparr>)
          else (take n seg, conn\<lparr>inbox := drop n seg # segs\<rparr>))"

text \<open>
  \<^verbatim>\<open>receive\<close>: one \<^verbatim>\<open>recv(1024)\<close>; with a line feed in the data the first element of
  \<^verbatim>\<open>data.split(LF)\<close> is decoded and returned, the other elements (\<^verbatim>\<open>*rest\<close>) are dropped.
  The unpacking \<^verbatim>\<open>response, *rest = ...\<close> raises \<^verbatim>\<open>ValueError\<close> on an empty list, which
  \<^verbatim>\<open>split\<close> never returns. \<^verbatim>\<open>send\<close> appends the line feed and writes the frame; the
  write is taken to succeed and to take the whole frame.
\<close>

definition receive :: "connection \<Rightarrow> (error + pystr) \<times> connection" where
  "receive conn =
     (let (data, conn') = recv 1024 conn in
      if LF \<in> set data then
        (case split LF data of
           [] \<Rightarrow> (Inl ValueError, conn')
         | response # rest \<Rightarrow> (decode response, conn'))
      else (Inl NameError, conn'))"

definition send :: "string \<Rightarrow> connection \<Rightarrow> connection" where
  "send mnemonic conn = conn\<lparr>sent := sent conn @ [mnemonic @ [LF]]\<rparr>"

section \<open>Python \<^verbatim>\<open>float\<close>: IEEE 754 binary64\<close>

text \<open>
  A \<^verbatim>\<open>float\<close> is a finite binary64 number (the real number it denotes; the two zeros are
  identified, no operation of this program tells them apart), an infinity
  (\<open>Inf True\<close> is \<open>+inf\<close>) or a NaN. \<open>fl\<close> rounds a real number to the nearest binary64
  number, ties to the even mantissa, as every arithmetic operation of the hardware does.
\<close>

datatype pyfloat = Fin real | Inf bool | NaN

definition pow2 :: "int \<Rightarrow> real" where
  "pow2 n = (if 0 \<le> n then 2 ^ nat n else 1 / 2 ^ nat (- n))"

text \<open>For \<open>0 < x\<close>, \<open>ilog2 x\<close> is the exponent \<open>e\<close> with \<open>2^e \<le> x < 2^(e+1)\<close>.\<close>

definition ilog2 :: "real \<Rightarrow> int" where
  "ilog2 x = (if 1 \<le> x then bitlen \<lfloor>x\<rfloor> - 1 else - bitlen (\<lceil>1 / x\<rceil> - 1))"

text \<open>\<open>2^1024\<close>, the least power of two beyond the binary64 range.\<close>

definition huge :: real where
  "huge = (2 ^ 32) ^ 32"

definition round_half_even :: "real \<Rightarrow> int" where
  "round_half_even x =
     (let f = \<lfloor>x\<rfloor>; d = x - of_int f in
      if d < 1 / 2 then f
      else if 1 / 2 < d then f + 1
      else if even f then f else f + 1)"

definition fl :: "real \<Rightarrow> pyfloat" where
  "fl x =
     (if x = 0 then Fin 0
      else
        let e = max (ilog2 \<bar>x\<bar>) (- 1022);
            u = pow2 (e - 52);
            y = of_int (round_half_even (x / u)) * u
        in if huge \<le> \<bar>y\<bar> then Inf (0 < x) else Fin y)"

fun fmul :: "pyfloat \<Rightarrow> pyfloat \<Rightarrow> pyfloat" where
  "fmul (Fin x) (Fin y) = fl (x * y)"
| "fmul NaN _ = NaN"
| "fmul _ NaN = NaN"
| "fmul (Fin x) (Inf q) = (if x = 0 then NaN else Inf (q = (0 < x)))"
| "fmul (Inf p) (Fin y) = (if y = 0 then NaN else Inf (p = (0 < y)))"
| "fmul (Inf p) (Inf q) = Inf (p = q)"

text \<open>\<^verbatim>\<open>a <= b\<close> on floats: false whenever a NaN is compared.\<close>

fun fle :: "pyfloat \<Rightarrow> pyfloat \<Rightarrow> bool" where
  "fle (Fin x) (Fin y) \<longleftrightarrow> x \<le> y"
| "fle NaN _ \<longleftrightarrow> False"
| "fle _ NaN \<longleftrightarrow> False"
| "fle (Fin x) (Inf q) \<longleftrightarrow> q"
| "fle (Inf p) (Fin y) \<longleftrightarrow> \<not> p"
| "fle (Inf p) (Inf q) \<longleftrightarrow> (p \<longrightarrow> q)"

text \<open>\<^verbatim>\<open>a / b\<close> on floats raises \<^verbatim>\<open>ZeroDivisionError\<close> for a zero divisor, whatever \<open>a\<close> is.\<close>

fun fquot :: "pyfloat \<Rightarrow> pyfloat \<Rightarrow> pyfloat" where
  "fquot (Fin x) (Fin y) = fl (x / y)"
| "fquot NaN _ = NaN"
| "fquot _ NaN = NaN"
| "fquot (Fin x) (Inf q) = Fin 0"
| "fquot (Inf p) (Fin y) = Inf (p = (0 < y))"
| "fquot (Inf p) (Inf q) = NaN"

definition fdiv :: "pyfloat \<Rightarrow> pyfloat \<Rightarrow> error + pyfloat" where
  "fdiv a b = (if b = Fin 0 then Inl ZeroDivisionError else Inr (fquot a b))"

text \<open>\<^verbatim>\<open>math.floor\<close> returns an \<^verbatim>\<open>int\<close>; it raises on an infinity and on a NaN.\<close>

fun math_floor :: "pyfloat \<Rightarrow> error + int" where
  "math_floor (Fin x) = Inr \<lfloor>x\<rfloor>"
| "math_floor (Inf p) = Inl OverflowError"
| "math_floor NaN = Inl ValueError"

text \<open>
  The conversion of an \<^verbatim>\<open>int\<close> operand in mixed arithmetic: correctly rounded,
  \<^verbatim>\<open>OverflowError\<close> when the integer is beyond the range of binary64.
\<close>

definition float_of_int :: "int \<Rightarrow> error + pyfloat" where
  "float_of_int k = (case fl (of_int k) of
                       Inf p \<Rightarrow> Inl OverflowError
                     | f \<Rightarrow> Inr f)"

subsection \<open>\<^verbatim>\<open>"{:d}".format\<close>\<close>

fun digits :: "nat \<Rightarrow> string" where
  "digits n =
     (if n < 10 then [''0123456789'' ! n]
      else digits (n div 10) @ [''0123456789'' ! (n mod 10)])"

definition format_d :: "int \<Rightarrow> string" where
  "format_d k = (if k < 0 then CHR ''-'' # digits (nat (- k)) else digits (nat k))"

section \<open>The \<^verbatim>\<open>Spellman\<close> device\<close>

text \<open>
  The device properties (\<^verbatim>\<open>host\<close> and \<^verbatim>\<open>port\<close> only select the peer and are part of
  the connection), and the device after \<^verbatim>\<open>init_device\<close>: its properties, its
  connection and the private fields \<^verbatim>\<open>init_device\<close> creates.
\<close>

record properties =
  voltage_range :: pyfloat
  current_range :: pyfloat
  filament_current_range :: pyfloat
  dac_resolution :: int
  adc_resolution :: int

record spellman =
  props :: properties
  connection :: connection
  voltage_set_factor :: pyfloat
  voltage_get_factor :: pyfloat
  current_set_factor :: pyfloat
  current_get_factor :: pyfloat
  filament_current_get_factor :: pyfloat
  current_setpoint :: pyfloat
  voltage_setpoint :: pyfloat

subsection \<open>The scaling expressions\<close>

text \<open>\<^verbatim>\<open>1.0*range/resolution\<close>, as \<^verbatim>\<open>init_device\<close> computes each factor.\<close>

definition factor :: "pyfloat \<Rightarrow> int \<Rightarrow> error + pyfloat" where
  "factor rng resolution =
     (case float_of_int resolution of
        Inl e \<Rightarrow> Inl e
      | Inr n \<Rightarrow> fdiv (fmul (Fin 1) rng) n)"

text \<open>\<^verbatim>\<open>math.floor(value / set_factor)\<close>, the first statement of both setters.\<close>

definition value_to_code :: "pyfloat \<Rightarrow> pyfloat \<Rightarrow> error + int" where
  "value_to_code v set_factor =
     (case fdiv v set_factor of
        Inl e \<Rightarrow> Inl e
      | Inr q \<Rightarrow> math_floor q)"

text \<open>\<^verbatim>\<open>1.0 * dac_value * set_factor\<close>, the quantised setpoint of both setters.\<close>

definition code_to_value :: "int \<Rightarrow> pyfloat \<Rightarrow> error + pyfloat" where
  "code_to_value code f =
     (case float_of_int code of
        Inl e \<Rightarrow> Inl e
      | Inr c \<Rightarrow> Inr (fmul (fmul (Fin 1) c) f))"

text \<open>
  The round trip of a value through the code of a channel with the given range and
  resolution: the three expressions above, one after the other.
\<close>

definition round_trip :: "pyfloat \<Rightarrow> pyfloat \<Rightarrow> int \<Rightarrow> error + pyfloat" where
  "round_trip x rng resolution =
     (case factor rng resolution of
        Inl e \<Rightarrow> Inl e
      | Inr f \<Rightarrow>
          (case value_to_code x f of
             Inl e \<Rightarrow> Inl e
           | Inr code \<Rightarrow> code_to_value code f))"

subsection \<open>Setpoints\<close>

text \<open>
  Every operation returns its result, or the exception it raises, together with the
  device as the call leaves it: an exception does not undo what was done before it.
\<close>

definition set_voltage :: "pyfloat \<Rightarrow> spellman \<Rightarrow> (error + unit) \<times> spellman" where
  "set_voltage voltage s =
     (case value_to_code voltage (voltage_set_factor s) of
        Inl e \<Rightarrow> (Inl e, s)
      | Inr dac_value \<Rightarrow>
          if 0 \<le> dac_value \<and> dac_value < dac_resolution (props s) then
            (case code_to_value dac_value (voltage_set_factor s) of
               Inl e \<Rightarrow> (Inl e, s)
             | Inr setpoint \<Rightarrow>
                 let command = '':V '' @ format_d dac_value;
                     (response, c) = receive (send command (connection s));
                     s' = s\<lparr>connection := c\<rparr>
                 in (case response of
                       Inl e \<Rightarrow> (Inl e, s')
                     | Inr r \<Rightarrow>
                         if r = str ''OK''
                         then (Inr (), s'\<lparr>voltage_setpoint := setpoint\<rparr>)
                         else (Inl ValueError, s')))
          else (Inl (VoltageExceededError dac_value), s))"

definition set_current :: "pyfloat \<Rightarrow> spellman \<Rightarrow> (error + unit) \<times> spellman" where
  "set_current current s =
     (case value_to_code current (current_set_factor s) of
        Inl e \<Rightarrow> (Inl e, s)
      | Inr dac_value \<Rightarrow>
          if 0 \<le> dac_value \<and> dac_value < dac_resolution (props s) then
            (case code_to_value dac_value (current_set_factor s) of
               Inl e \<Rightarrow> (Inl e, s)
             | Inr setpoint \<Rightarrow>
                 let command = '':C '' @ format_d dac_value;
                     (response, c) = receive (send command (connection s));
                     s' = s\<lparr>connection := c\<rparr>
                 in (case response of
                       Inl e \<Rightarrow> (Inl e, s')
                     | Inr r \<Rightarrow>
                         if r = str ''OK''
                         then (Inr (), s'\<lparr>current_setpoint := setpoint\<rparr>)
                         else (Inl ValueError, s')))
          else (Inl (CurrentExceededError dac_value), s))"

text \<open>The attribute reads \<^verbatim>\<open>voltage_setpoint\<close> and \<^verbatim>\<open>current_setpoint\<close> return the field.\<close>

definition read_voltage_setpoint :: "spellman \<Rightarrow> pyfloat" where
  "read_voltage_setpoint s = voltage_setpoint s"

definition read_current_setpoint :: "spellman \<Rightarrow> pyfloat" where
  "read_current_setpoint s = current_setpoint s"

text \<open>
  The attribute writes call the setter and log \<^verbatim>\<open>ex.message\<close> of whatever it raises.
  Only a \<^verbatim>\<open>DACError\<close> has that attribute; for any other exception the handler itself
  raises \<^verbatim>\<open>AttributeError\<close>.
\<close>

datatype write_result = Written | Logged error | AttributeError

fun handle_write :: "error + unit \<Rightarrow> write_result" where
  "handle_write (Inr _) = Written"
| "handle_write (Inl (VoltageExceededError d)) = Logged (VoltageExceededError d)"
| "handle_write (Inl (CurrentExceededError d)) = Logged (CurrentExceededError d)"
| "handle_write (Inl _) = AttributeError"

definition write_voltage_setpoint :: "pyfloat \<Rightarrow> spellman \<Rightarrow> write_result \<times> spellman" where
  "write_voltage_setpoint v s = (let (r, s') = set_voltage v s in (handle_write r, s'))"

definition write_current_setpoint :: "pyfloat \<Rightarrow> spellman \<Rightarrow> write_result \<times> spellman" where
  "write_current_setpoint v s = (let (r, s') = set_current v s in (handle_write r, s'))"

subsection \<open>Queries\<close>

text \<open>Send a mnemonic and read one response: the body of every query.\<close>

definition query :: "string \<Rightarrow> spellman \<Rightarrow> (error + pystr) \<times> spellman" where
  "query mnemonic s =
     (let (response, c) = receive (send mnemonic (connection s))
      in (response, s\<lparr>connection := c\<rparr>))"

text \<open>
  The readbacks parse the response with the builtin \<^verbatim>\<open>float\<close>, which is a parameter
  here (\<open>None\<close> is its \<^verbatim>\<open>ValueError\<close>), and scale it.
\<close>

definition readback ::
  "(pystr \<Rightarrow> pyfloat option) \<Rightarrow> string \<Rightarrow> pyfloat \<Rightarrow> spellman
     \<Rightarrow> (error + pyfloat) \<times> spellman" where
  "readback float mnemonic get_factor s =
     (let (response, s') = query mnemonic s in
      case response of
        Inl e \<Rightarrow> (Inl e, s')
      | Inr r \<Rightarrow>
          (case float r of
             None \<Rightarrow> (Inl ValueError, s')
           | Some x \<Rightarrow> (Inr (fmul x get_factor), s')))"

definition voltage ::
  "(pystr \<Rightarrow> pyfloat option) \<Rightarrow> spellman \<Rightarrow> (error + pyfloat) \<times> spellman" where
  "voltage float s = readback float '':V?'' (voltage_get_factor s) s"

definition current ::
  "(pystr \<Rightarrow> pyfloat option) \<Rightarrow> spellman \<Rightarrow> (error + pyfloat) \<times> spellman" where
  "current float s = readback float '':C?'' (current_get_factor s) s"

definition filament ::
  "(pystr \<Rightarrow> pyfloat option) \<Rightarrow> spellman \<Rightarrow> (error + pyfloat) \<times> spellman" where
  "filament float s = readback float '':FIL?'' (filament_current_get_factor s) s"

definition interlock :: "spellman \<Rightarrow> (error + pystr) \<times> spellman" where
  "interlock s =
     (let (response, c) = receive (send '':ILOCK?'' (connection s));
          s' = s\<lparr>connection := c\<rparr>
      in case response of
           Inl e \<Rightarrow> (Inl e, s')
         | Inr r \<Rightarrow>
             if r = str ''open\<newline>''
             then (Inr r, s'\<lparr>current_setpoint := Fin 0, voltage_setpoint := Fin 0\<rparr>)
             else (Inr r, s'))"

subsection \<open>Commands\<close>

definition enable :: "spellman \<Rightarrow> (error + pystr) \<times> spellman" where
  "enable s =
     (case set_voltage (Fin 0) s of
        (Inl e, s1) \<Rightarrow> (Inl e, s1)
      | (Inr _, s1) \<Rightarrow>
          (case set_current (Fin 0) s1 of
             (Inl e, s2) \<Rightarrow> (Inl e, s2)
           | (Inr _, s2) \<Rightarrow> query '':ON'' s2))"

definition disable :: "spellman \<Rightarrow> (error + pystr) \<times> spellman" where
  "disable s = query '':OFF'' s"

definition IDN :: "spellman \<Rightarrow> (error + pystr) \<times> spellman" where
  "IDN s = query ''*IDN?'' s"

subsection \<open>\<^verbatim>\<open>init_device\<close>\<close>

text \<open>
  \<open>link\<close> is the outcome of the constructor \<^verbatim>\<open>SpellmanEthernetInterface(host, port)\<close>:
  the connection, or \<open>None\<close> when it raised. Any exception ends the process
  (\<^verbatim>\<open>sys.exit()\<close>), so there is a device only when \<open>init_device\<close> returns \<open>Inr\<close>.
\<close>

datatype init_error = ConnectFailed | InitFailed error

definition init_device :: "properties \<Rightarrow> connection option \<Rightarrow> init_error + spellman" where
  "init_device p link =
     (case link of
        None \<Rightarrow> Inl ConnectFailed
      | Some c \<Rightarrow>
          (case factor (voltage_range p) (dac_resolution p) of
             Inl e \<Rightarrow> Inl (InitFailed e)
           | Inr vs \<Rightarrow>
          (case factor (voltage_range p) (adc_resolution p) of
             Inl e \<Rightarrow> Inl (InitFailed e)
           | Inr vg \<Rightarrow>
          (case factor (current_range p) (dac_resolution p) of
             Inl e \<Rightarrow> Inl (InitFailed e)
           | Inr cs \<Rightarrow>
          (case factor (current_range p) (adc_resolution p) of
             Inl e \<Rightarrow> Inl (InitFailed e)
           | Inr cg \<Rightarrow>
          (case factor (filament_current_range p) (adc_resolution p) of
             Inl e \<Rightarrow> Inl (InitFailed e)
           | Inr fg \<Rightarrow>
               Inr \<lparr>props = p, connection = c,
                    voltage_set_factor = vs, voltage_get_factor = vg,
                    current_set_factor = cs, current_get_factor = cg,
                    filament_current_get_factor = fg,
                    current_setpoint = Fin 0, voltage_setpoint = Fin 0\<rparr>))))))"

subsection \<open>The states a running device can be in\<close>

text \<open>
  A client may invoke any attribute or command, with any argument, at any time; the peer
  may deliver anything. \<open>reachable p s\<close>: the device with properties \<open>p\<close> can be in state
  \<open>s\<close> after \<^verbatim>\<open>init_device\<close> and any number of such calls, whether they return or raise.
\<close>

inductive reachable :: "properties \<Rightarrow> spellman \<Rightarrow> bool" for p :: properties where
  init: "init_device p (Some c) = Inr s \<Longrightarrow> reachable p s"
| write_voltage: "reachable p s \<Longrightarrow> reachable p (snd (write_voltage_setpoint v s))"
| write_current: "reachable p s \<Longrightarrow> reachable p (snd (write_current_setpoint v s))"
| read_voltage: "reachable p s \<Longrightarrow> reachable p (snd (voltage float s))"
| read_current: "reachable p s \<Longrightarrow> reachable p (snd (current float s))"
| read_filament: "reachable p s \<Longrightarrow> reachable p (snd (filament float s))"
| read_interlock: "reachable p s \<Longrightarrow> reachable p (snd (interlock s))"
| do_enable: "reachable p s \<Longrightarrow> reachable p (snd (enable s))"
| do_disable: "reachable p s \<Longrightarrow> reachable p (snd (disable s))"
| do_IDN: "reachable p s \<Longrightarrow> reachable p (snd (IDN s))"

subsection \<open>Quantised setpoints\<close>

text \<open>
  \<open>quantised n f x\<close>: the setpoint \<open>x\<close> is the quantised value \<^verbatim>\<open>1.0 * k * f\<close> of a code
  \<open>k\<close> with \<open>0 \<le> k < n\<close>. \<open>setpoint_step s s'\<close>: from \<open>s\<close> to \<open>s'\<close> the properties and
  the set factors are kept, and each setpoint is kept or replaced by the quantised value
  of an in-range code.
\<close>

definition quantised :: "int \<Rightarrow> pyfloat \<Rightarrow> pyfloat \<Rightarrow> bool" where
  "quantised n f x \<longleftrightarrow> (\<exists>k\<in>{0..<n}. code_to_value k f = Inr x)"

definition setpoints_quantised :: "spellman \<Rightarrow> bool" where
  "setpoints_quantised s \<longleftrightarrow>
     quantised (dac_resolution (props s)) (voltage_set_factor s) (voltage_setpoint s) \<and>
     quantised (dac_resolution (props s)) (current_set_factor s) (current_setpoint s)"

definition setpoint_step :: "spellman \<Rightarrow> spellman \<Rightarrow> bool" where
  "setpoint_step s s' \<longleftrightarrow>
     props s' = props s \<and>
     voltage_set_factor s' = voltage_set_factor s \<and>
     current_set_factor s' = current_set_factor s \<and>
     (voltage_setpoint s' = voltage_setpoint s \<or>
      quantised (dac_resolution (props s)) (voltage_set_factor s) (voltage_setpoint s')) \<and>
     (current_setpoint s' = current_setpoint s \<or>
      quantised (dac_resolution (props s)) (current_set_factor s) (current_setpoint s'))"

subsection \<open>The rounding slack of a quantised value\<close>

text \<open>
  The quotient \<^verbatim>\<open>v / set_factor\<close> and the product \<^verbatim>\<open>1.0 * code * set_factor\<close> are
  each rounded to binary64. \<open>rounding_slack x f\<close> bounds what the two roundings add to
  the distance of the quantised value from \<open>x\<close>: four units in the last place of
  \<open>\<bar>x\<bar> + f\<close>, and a term for the subnormal range.
\<close>

definition rounding_slack :: "real \<Rightarrow> real \<Rightarrow> real" where
  "rounding_slack x f = pow2 (- 51) * (\<bar>x\<bar> + f) + pow2 (- 1074) * (1 + f)"

section \<open>Example devices\<close>

text \<open>
  A device as \<^verbatim>\<open>init_device\<close> leaves it for the ranges 256 kV, 256 mA and 1024 mA with
  the default resolutions, so that both set factors are 1, after the setpoints 5 kV and
  2 mA have been committed; \<open>segs\<close> is what the controller will deliver.
\<close>

definition example_props :: properties where
  "example_props =
     \<lparr>voltage_range = Fin 256, current_range = Fin 256,
      filament_current_range = Fin 1024,
      dac_resolution = 256, adc_resolution = 1024\<rparr>"

definition example_device :: "bytes list \<Rightarrow> spellman" where
  "example_device segs =
     \<lparr>props = example_props,
      connection = \<lparr>inbox = segs, sent = []\<rparr>,
      voltage_set_factor = Fin 1, voltage_get_factor = Fin (1 / 4),
      current_set_factor = Fin 1, current_get_factor = Fin (1 / 4),
      filament_current_get_factor = Fin 1,
      current_setpoint = Fin 2, voltage_setpoint = Fin 5\<rparr>"

text \<open>
  The binary64 numbers that the literals \<^verbatim>\<open>25.6\<close>, \<^verbatim>\<open>6.8\<close> and \<^verbatim>\<open>0.59\<close> denote
  (\<^verbatim>\<open>float.as_integer_ratio\<close> gives these fractions).
\<close>

definition f25_6 :: real where
  "f25_6 = 3602879701896397 / 2 ^ 47"

definition f6_8 :: real where
  "f6_8 = 7656119366529843 / 2 ^ 50"

definition f0_59 :: real where
  "f0_59 = 5314247560297185 / 2 ^ 53"

section \<open>Properties of the float arithmetic\<close>

subsection \<open>Powers of two and the binary exponent\<close>

lemma pow2_powi: "pow2 n = 2 powi n"
  by (simp add: pow2_def power_int_def inverse_eq_divide power_one_over)

lemma pow2_pos: "0 < pow2 n"
  by (simp add: pow2_powi)

lemma pow2_add: "pow2 (a + b) = pow2 a * pow2 b"
  by (simp add: pow2_powi power_int_add)

lemma pow2_mono: "a \<le> b \<Longrightarrow> pow2 a \<le> pow2 b"
  by (simp add: pow2_powi power_int_increasing)

lemma pow2_strict_mono: "a < b \<Longrightarrow> pow2 a < pow2 b"
  by (simp add: pow2_powi power_int_strict_increasing)

lemma pow2_nat: "pow2 (int n) = 2 ^ n"
  by (simp add: pow2_def)

lemma huge_pow2: "huge = pow2 1024"
  by (simp add: huge_def pow2_def flip: power_mult)

text \<open>\<open>ilog2\<close> is the binary exponent.\<close>

lemma ilog2_bounds:
  assumes "0 < x"
  shows "pow2 (ilog2 x) \<le> x" and "x < pow2 (ilog2 x + 1)"
proof -
  have "pow2 (ilog2 x) \<le> x \<and> x < pow2 (ilog2 x + 1)"
  proof (cases "1 \<le> x")
    case True
    define n where "n = \<lfloor>x\<rfloor>"
    from True have n: "0 < n" by (simp add: n_def)
    then have b: "1 \<le> bitlen n" by (simp add: bitlen_alt_def)
    from bitlen_bounds [OF n] have lo: "2 ^ nat (bitlen n - 1) \<le> n" and hi: "n < 2 ^ nat (bitlen n)"
      by auto
    from lo have "(of_int (2 ^ nat (bitlen n - 1)) :: real) \<le> of_int n"
      by (simp only: of_int_le_iff)
    also have "\<dots> \<le> x" by (simp add: n_def)
    finally have 1: "pow2 (bitlen n - 1) \<le> x"
      using b by (simp add: pow2_def)
    from hi have "n + 1 \<le> 2 ^ nat (bitlen n)" by simp
    then have "(of_int (n + 1) :: real) \<le> of_int (2 ^ nat (bitlen n))"
      by (simp only: of_int_le_iff)
    moreover have "x < of_int (n + 1)" unfolding n_def by linarith
    ultimately have 2: "x < pow2 (bitlen n)"
      using b by (simp add: pow2_def)
    from True 1 2 show ?thesis by (simp add: ilog2_def n_def)
  next
    case False
    define y where "y = 1 / x"
    define m where "m = \<lceil>y\<rceil> - 1"
    from False assms have y: "1 < y" by (simp add: y_def)
    then have m: "0 < m" by (simp add: m_def less_ceiling_iff)
    then have b: "1 \<le> bitlen m" by (simp add: bitlen_alt_def)
    from bitlen_bounds [OF m] have lo: "2 ^ nat (bitlen m - 1) \<le> m" and hi: "m < 2 ^ nat (bitlen m)"
      by auto
    from hi have "\<lceil>y\<rceil> \<le> 2 ^ nat (bitlen m)" by (simp add: m_def)
    then have "y \<le> of_int (2 ^ nat (bitlen m))" by (simp only: ceiling_le_iff)
    then have "y \<le> 2 ^ nat (bitlen m)" by simp
    then have "1 / 2 ^ nat (bitlen m) \<le> x"
      using assms by (simp add: y_def field_simps)
    then have 1: "pow2 (- bitlen m) \<le> x"
      using b by (simp add: pow2_def)
    from lo have "2 ^ nat (bitlen m - 1) < \<lceil>y\<rceil>" by (simp add: m_def)
    then have "of_int (2 ^ nat (bitlen m - 1)) < y" by (simp only: less_ceiling_iff)
    then have "2 ^ nat (bitlen m - 1) < y" by simp
    then have "x < 1 / 2 ^ nat (bitlen m - 1)"
      using assms by (simp add: y_def field_simps)
    moreover have "pow2 (- bitlen m + 1) = 1 / 2 ^ nat (bitlen m - 1)"
      using b by (auto simp: pow2_def)
    ultimately have 2: "x < pow2 (- bitlen m + 1)" by simp
    from False 1 2 show ?thesis by (simp add: ilog2_def m_def y_def)
  qed
  then show "pow2 (ilog2 x) \<le> x" and "x < pow2 (ilog2 x + 1)" by auto
qed

lemma ilog2_unique:
  assumes "pow2 e \<le> x" and "x < pow2 (e + 1)"
  shows "ilog2 x = e"
proof -
  from assms(1) pow2_pos [of e] have x: "0 < x" by linarith
  have "pow2 (ilog2 x) < pow2 (e + 1)"
    using ilog2_bounds(1) [OF x] assms(2) by linarith
  then have 1: "ilog2 x < e + 1"
    using pow2_mono [of "e + 1" "ilog2 x"] by (cases "ilog2 x < e + 1") auto
  have "pow2 e < pow2 (ilog2 x + 1)"
    using ilog2_bounds(2) [OF x] assms(1) by linarith
  then have 2: "e < ilog2 x + 1"
    using pow2_mono [of "ilog2 x + 1" e] by (cases "e < ilog2 x + 1") auto
  from 1 2 show ?thesis by linarith
qed


subsection \<open>Rounding to an integer\<close>

lemma round_half_even_of_int: "round_half_even (of_int k) = k"
  by (simp add: round_half_even_def)

lemma round_half_even_error: "\<bar>of_int (round_half_even z) - z\<bar> \<le> 1 / 2"
proof -
  have "of_int \<lfloor>z\<rfloor> \<le> z" "z < of_int \<lfloor>z\<rfloor> + 1" by linarith+
  then show ?thesis
    by (auto simp: round_half_even_def Let_def abs_le_iff)
qed

lemma round_half_even_nonneg: "0 \<le> z \<Longrightarrow> 0 \<le> round_half_even z"
  by (auto simp: round_half_even_def Let_def)

lemma round_half_even_nonpos: "z \<le> 0 \<Longrightarrow> round_half_even z \<le> 0"
proof -
  assume z: "z \<le> 0"
  show ?thesis
  proof (cases "z = 0")
    case True
    then show ?thesis by (simp add: round_half_even_def)
  next
    case False
    with z have "\<lfloor>z\<rfloor> \<le> - 1" by (simp add: floor_le_iff)
    then show ?thesis by (auto simp: round_half_even_def Let_def)
  qed
qed

subsection \<open>Rounding to binary64\<close>

text \<open>\<open>fl\<close> on a number whose binary exponent is known.\<close>

lemma fl_exponent:
  assumes "pow2 e \<le> \<bar>x\<bar>" and "\<bar>x\<bar> < pow2 (e + 1)"
  shows "fl x =
     (if huge \<le> \<bar>of_int (round_half_even (x / pow2 (max e (- 1022) - 52)))
                    * pow2 (max e (- 1022) - 52)\<bar>
      then Inf (0 < x)
      else Fin (of_int (round_half_even (x / pow2 (max e (- 1022) - 52)))
                * pow2 (max e (- 1022) - 52)))"
proof -
  from assms(1) pow2_pos [of e] have "x \<noteq> 0" by auto
  moreover from assms have "ilog2 \<bar>x\<bar> = e" by (rule ilog2_unique)
  ultimately show ?thesis by (simp add: fl_def Let_def)
qed

lemma fl_zero: "fl 0 = Fin 0"
  by (simp add: fl_def)

lemma pow2_0: "pow2 0 = 1"
  by (simp add: pow2_def)

lemma pow2_minus: "pow2 (- n) = 1 / pow2 n"
  by (simp add: pow2_powi power_int_minus_divide)

lemma pow2_diff: "pow2 (a - b) = pow2 a / pow2 b"
  using pow2_add [of a "- b"] by (simp add: pow2_minus)

text \<open>A number with a mantissa below \<open>2^53\<close> and an exponent in range is a binary64 number.\<close>

lemma fl_dyadic:
  assumes m: "\<bar>m\<bar> < 2 ^ 53" and n: "- 1074 \<le> n" "n \<le> 971"
  shows "fl (of_int m * pow2 n) = Fin (of_int m * pow2 n)"
proof (cases "m = 0")
  case True
  then show ?thesis by (simp add: fl_zero)
next
  case False
  define x :: real where "x = of_int m * pow2 n"
  define j where "j = ilog2 \<bar>of_int m\<bar>"
  from False have m1: "1 \<le> \<bar>of_int m :: real\<bar>" by (simp flip: of_int_abs)
  then have m0: "0 < \<bar>of_int m :: real\<bar>" by linarith
  from m have "(of_int \<bar>m\<bar> :: real) < of_int (2 ^ 53)" by (simp only: of_int_less_iff)
  then have m53: "\<bar>of_int m :: real\<bar> < pow2 53" by (simp add: pow2_def)
  have lo: "pow2 j \<le> \<bar>of_int m\<bar>" and hi: "\<bar>of_int m :: real\<bar> < pow2 (j + 1)"
    using ilog2_bounds [OF m0] by (simp_all add: j_def)
  have "pow2 0 < pow2 (j + 1)" using m1 hi by (simp add: pow2_0)
  then have j0: "0 \<le> j"
    using pow2_mono [of "j + 1" 0] by (cases "0 \<le> j") auto
  have "pow2 j < pow2 53" using lo m53 by linarith
  then have j52: "j \<le> 52"
    using pow2_mono [of 53 j] by (cases "j \<le> 52") auto
  have ax: "\<bar>x\<bar> = \<bar>of_int m\<bar> * pow2 n"
    using pow2_pos [of n] by (simp add: x_def abs_mult)
  have xlo: "pow2 (j + n) \<le> \<bar>x\<bar>"
    using lo pow2_pos [of n] by (simp add: ax pow2_add)
  have xhi: "\<bar>x\<bar> < pow2 (j + n + 1)"
    using hi pow2_pos [of n] pow2_add [of "j + 1" n] by (simp add: ax add.commute add.left_commute)
  define e where "e = max (j + n) (- 1022)"
  define d where "d = n - (e - 52)"
  have d0: "0 \<le> d" using j52 n by (auto simp: d_def e_def)
  have "x / pow2 (e - 52) = of_int m * pow2 d"
    using pow2_pos [of "e - 52"] by (simp add: x_def d_def pow2_diff)
  also have "\<dots> = of_int (m * 2 ^ nat d)"
    using d0 by (simp add: pow2_def)
  finally have "round_half_even (x / pow2 (e - 52)) = m * 2 ^ nat d"
    by (simp only: round_half_even_of_int)
  then have "of_int (round_half_even (x / pow2 (e - 52))) * pow2 (e - 52)
      = of_int m * (pow2 d * pow2 (e - 52))"
    using d0 by (simp add: pow2_def)
  also have "pow2 d * pow2 (e - 52) = pow2 n"
    by (simp add: d_def flip: pow2_add)
  finally have y: "of_int (round_half_even (x / pow2 (e - 52))) * pow2 (e - 52) = x"
    by (simp add: x_def)
  have "\<bar>of_int m\<bar> * pow2 n < pow2 53 * pow2 n"
    using m53 pow2_pos [of n] by (simp only: mult_strict_right_mono)
  also have "\<dots> \<le> pow2 53 * pow2 971"
    using pow2_mono [OF n(2)] pow2_pos [of 53] by (simp only: mult_left_mono less_imp_le)
  finally have "\<bar>x\<bar> < pow2 53 * pow2 971"
    by (simp only: ax)
  also have "\<dots> = huge"
    by (simp add: huge_def pow2_def)
  finally have "\<not> huge \<le> \<bar>x\<bar>" by simp
  with fl_exponent [OF xlo xhi] y show ?thesis
    by (simp add: e_def x_def)
qed


lemma fl_of_int:
  assumes "\<bar>k\<bar> < 2 ^ 53"
  shows "fl (of_int k) = Fin (of_int k)"
  using fl_dyadic [OF assms, of 0] by (simp add: pow2_0)

lemma round_half_even_abs_le:
  assumes "\<bar>z\<bar> < of_int k"
  shows "\<bar>round_half_even z\<bar> \<le> k"
proof -
  have "\<bar>of_int (round_half_even z) - z\<bar> \<le> 1 / 2" by (rule round_half_even_error)
  with assms have "\<bar>of_int (round_half_even z) :: real\<bar> < of_int k + 1" by linarith
  then have "(of_int \<bar>round_half_even z\<bar> :: real) < of_int (k + 1)" by simp
  then have "\<bar>round_half_even z\<bar> < k + 1" by (simp only: of_int_less_iff)
  then show ?thesis by simp
qed

lemma round_half_even_abs_ge:
  assumes "of_int k \<le> \<bar>z\<bar>"
  shows "k \<le> \<bar>round_half_even z\<bar>"
proof -
  have "\<bar>of_int (round_half_even z) - z\<bar> \<le> 1 / 2" by (rule round_half_even_error)
  with assms have "of_int k - 1 < \<bar>of_int (round_half_even z) :: real\<bar>" by linarith
  then have "(of_int (k - 1) :: real) < of_int \<bar>round_half_even z\<bar>" by simp
  then have "k - 1 < \<bar>round_half_even z\<bar>" by (simp only: of_int_less_iff)
  then show ?thesis by simp
qed

text \<open>Every finite result of \<open>fl\<close> has a mantissa below \<open>2^53\<close> and an exponent in range.\<close>

lemma fl_result_dyadic:
  assumes "fl x = Fin y"
  shows "\<exists>m n. y = of_int m * pow2 n \<and> \<bar>m\<bar> < 2 ^ 53 \<and> - 1074 \<le> n \<and> n \<le> 971"
proof (cases "x = 0")
  case True
  with assms have "y = of_int 0 * pow2 0" by (simp add: fl_zero)
  then show ?thesis by (intro exI [of _ 0] exI [of _ "0::int"]) simp
next
  case False
  define e where "e = max (ilog2 \<bar>x\<bar>) (- 1022)"
  define u where "u = pow2 (e - 52)"
  define M where "M = round_half_even (x / u)"
  from False have x0: "0 < \<bar>x\<bar>" by simp
  have u0: "0 < u" by (simp add: u_def pow2_pos)
  from assms False have y: "y = of_int M * u" and fin: "\<not> huge \<le> \<bar>of_int M * u\<bar>"
    by (auto simp: fl_def Let_def e_def u_def M_def split: if_splits)
  have e_lo: "- 1022 \<le> e" by (simp add: e_def)
  have "\<bar>x\<bar> < pow2 (ilog2 \<bar>x\<bar> + 1)" by (rule ilog2_bounds(2) [OF x0])
  also have "\<dots> \<le> pow2 (e + 1)" by (rule pow2_mono) (simp add: e_def)
  also have "\<dots> = pow2 53 * u"
    using pow2_add [of 53 "e - 52"] by (simp add: u_def add.commute)
  finally have "\<bar>x / u\<bar> < pow2 53" using u0 by (simp add: pos_divide_less_eq)
  then have "\<bar>x / u\<bar> < of_int (2 ^ 53)" by (simp add: pow2_def)
  then have M53: "\<bar>M\<bar> \<le> 2 ^ 53" unfolding M_def by (rule round_half_even_abs_le)
  have ay: "\<bar>of_int M * u\<bar> = of_int \<bar>M\<bar> * u" using u0 by (simp add: abs_mult)
  have e_hi: "e \<le> 1023"
  proof (rule ccontr)
    assume "\<not> e \<le> 1023"
    then have e: "1024 \<le> e" by simp
    then have "e = ilog2 \<bar>x\<bar>" by (simp add: e_def split: if_splits)
    then have "pow2 e \<le> \<bar>x\<bar>" using ilog2_bounds(1) [OF x0] by simp
    moreover have "pow2 e = pow2 52 * u" by (simp add: u_def flip: pow2_add)
    ultimately have "pow2 52 \<le> \<bar>x / u\<bar>" using u0 by (simp add: pos_le_divide_eq)
    then have "of_int (2 ^ 52) \<le> \<bar>x / u\<bar>" by (simp add: pow2_def)
    then have "2 ^ 52 \<le> \<bar>M\<bar>" unfolding M_def by (rule round_half_even_abs_ge)
    then have "(of_int (2 ^ 52) :: real) \<le> of_int \<bar>M\<bar>" by (simp only: of_int_le_iff)
    then have "pow2 52 * u \<le> of_int \<bar>M\<bar> * u"
      using u0 by (simp add: pow2_def)
    moreover have "pow2 1024 \<le> pow2 52 * u"
      using pow2_mono [OF e] by (simp add: u_def flip: pow2_add)
    ultimately have "huge \<le> \<bar>of_int M * u\<bar>" by (simp add: ay huge_pow2)
    with fin show False by simp
  qed
  show ?thesis
  proof (cases "\<bar>M\<bar> < 2 ^ 53")
    case True
    with y e_lo e_hi show ?thesis
      by (intro exI [of _ M] exI [of _ "e - 52"]) (simp add: u_def)
  next
    case False
    with M53 have M: "\<bar>M\<bar> = 2 ^ 53" by simp
    have e22: "e \<le> 1022"
    proof (rule ccontr)
      assume "\<not> e \<le> 1022"
      with e_hi have "e = 1023" by simp
      then have "of_int \<bar>M\<bar> * u = huge"
        by (simp add: M u_def huge_def pow2_def)
      with fin show False by (simp add: ay)
    qed
    have two: "2 * pow2 (e - 52) = pow2 (e - 51)"
      using pow2_add [of 1 "e - 52"] by (simp add: pow2_def)
    from M have "M = 2 ^ 53 \<or> M = - (2 ^ 53)" by linarith
    then have half: "M = M div 2 * 2" and small: "\<bar>M div 2\<bar> < 2 ^ 53" by auto
    from half have "(of_int M :: real) = of_int (M div 2 * 2)" by simp
    then have "of_int M * u = of_int (M div 2) * (2 * u)" by simp
    then have "of_int M * u = of_int (M div 2) * pow2 (e - 51)"
      using two by (simp add: u_def)
    moreover note small
    ultimately show ?thesis
      using y e_lo e22
      by (intro exI [of _ "M div 2"] exI [of _ "e - 51"]) simp
  qed
qed

lemma fl_idem: "fl x = Fin y \<Longrightarrow> fl y = Fin y"
  using fl_result_dyadic [of x y] fl_dyadic by auto


text \<open>The floor of a float is an integer that converts to \<^verbatim>\<open>float\<close> without rounding.\<close>

lemma fl_floor_exact:
  assumes "fl x = Fin y"
  shows "fl (of_int \<lfloor>y\<rfloor>) = Fin (of_int \<lfloor>y\<rfloor>)"
proof -
  from fl_result_dyadic [OF assms] obtain m n
    where y: "y = of_int m * pow2 n" and m: "\<bar>m\<bar> < 2 ^ 53"
      and n: "- 1074 \<le> n" "n \<le> 971"
    by blast
  show ?thesis
  proof (cases "0 \<le> n")
    case True
    then have "y = of_int (m * 2 ^ nat n)" by (simp add: y pow2_def)
    then have "of_int \<lfloor>y\<rfloor> = y" by (simp only: floor_of_int)
    moreover from fl_dyadic [OF m n] have "fl y = Fin y" by (simp only: y)
    ultimately show ?thesis by (simp only:)
  next
    case False
    then have "pow2 n \<le> pow2 (- 1)" by (intro pow2_mono) simp
    then have p: "pow2 n \<le> 1 / 2" by (simp add: pow2_def)
    from m have "(of_int \<bar>m\<bar> :: real) < of_int (2 ^ 53)" by (simp only: of_int_less_iff)
    then have m': "\<bar>of_int m :: real\<bar> < 2 ^ 53" by simp
    have "\<bar>y\<bar> = \<bar>of_int m\<bar> * pow2 n"
      using pow2_pos [of n] by (simp add: y abs_mult)
    also have "\<dots> \<le> \<bar>of_int m\<bar> * (1 / 2)"
      using p by (intro mult_left_mono) simp_all
    also have "\<dots> < 2 ^ 53 * (1 / 2)"
      using m' by (intro mult_strict_right_mono) simp_all
    finally have "\<bar>y\<bar> < 2 ^ 52" by simp
    then have "\<bar>\<lfloor>y\<rfloor>\<bar> < 2 ^ 53" by simp linarith
    then show ?thesis by (rule fl_of_int)
  qed
qed

text \<open>Instances for the numbers of the examples.\<close>

lemma fl_numeral:
  "numeral w < (2::int) ^ 53 \<Longrightarrow> fl (numeral w) = Fin (numeral w)"
  using fl_of_int [of "numeral w"] by simp

lemma fl_neg_numeral:
  "numeral w < (2::int) ^ 53 \<Longrightarrow> fl (- numeral w) = Fin (- numeral w)"
  using fl_of_int [of "- numeral w"] by simp

lemma fl_one: "fl 1 = Fin 1"
  using fl_of_int [of 1] by simp

lemma fl_neg_one: "fl (- 1) = Fin (- 1)"
  using fl_of_int [of "- 1"] by simp

lemma fl_numeral_half:
  "numeral w < (2::int) ^ 53 \<Longrightarrow> fl (numeral w / 2) = Fin (numeral w / 2)"
  using fl_dyadic [of "numeral w" "- 1"] by (simp add: pow2_def)

lemma fl_quarter: "fl (1 / 4) = Fin (1 / 4)"
  using fl_dyadic [of 1 "- 2"] by (simp add: pow2_def)

lemmas fl_eval = fl_zero fl_one fl_neg_one fl_quarter fl_numeral fl_neg_numeral fl_numeral_half

lemma fl_neg_quarter: "fl (- (1 / 4)) = Fin (- (1 / 4))"
  using fl_dyadic [of "- 1" "- 2"] by (simp add: pow2_def)

lemma fl_neg_numeral_half:
  "numeral w < (2::int) ^ 53 \<Longrightarrow> fl (- (numeral w / 2)) = Fin (- (numeral w / 2))"
  using fl_dyadic [of "- numeral w" "- 1"] by (simp add: pow2_def)

text \<open>Roundings that are not exact, evaluated: the literals and the two worked examples.\<close>

lemmas fl_round = pow2_def huge_def round_half_even_def Let_def

lemma literal_25_6: "fl (256 / 10) = Fin f25_6"
  using fl_exponent [of 4 "256 / 10"] by (simp add: fl_round f25_6_def)

lemma literal_6_8: "fl (68 / 10) = Fin f6_8"
  using fl_exponent [of 2 "68 / 10"] by (simp add: fl_round f6_8_def)

lemma literal_0_59: "fl (59 / 100) = Fin f0_59"
  using fl_exponent [of "- 1" "59 / 100"] by (simp add: fl_round f0_59_def)

lemma fl_f25_6: "fl f25_6 = Fin f25_6"
  using fl_dyadic [of 3602879701896397 "- 47"] by (simp add: pow2_def f25_6_def)

lemma factor_25_6: "factor (Fin f25_6) 256 = Inr (Fin (3602879701896397 / 2 ^ 55))"
  using fl_dyadic [of 3602879701896397 "- 55"]
  by (simp add: factor_def float_of_int_def fl_eval fdiv_def fl_f25_6) (simp add: f25_6_def pow2_def)

lemma factor_25_6_adc: "factor (Fin f25_6) 1024 = Inr (Fin (3602879701896397 / 2 ^ 57))"
  using fl_dyadic [of 3602879701896397 "- 57"]
  by (simp add: factor_def float_of_int_def fl_eval fdiv_def fl_f25_6) (simp add: f25_6_def pow2_def)

lemma code_6_8: "value_to_code (Fin f6_8) (Fin (3602879701896397 / 2 ^ 55)) = Inr 68"
  using fl_exponent [of 6 "f6_8 / (3602879701896397 / 2 ^ 55)"]
  by (simp add: value_to_code_def fdiv_def) (simp add: fl_round f6_8_def)

lemma value_68: "code_to_value 68 (Fin (3602879701896397 / 2 ^ 55)) = Inr (Fin (1914029841632461 / 2 ^ 48))"
  using fl_exponent [of 2 "68 * (3602879701896397 / 2 ^ 55)"]
  by (simp add: code_to_value_def float_of_int_def fl_eval) (simp add: fl_round)

lemma factor_1_100: "factor (Fin 1) 100 = Inr (Fin (5764607523034235 / 2 ^ 59))"
  using fl_exponent [of "- 7" "1 / 100"]
  by (simp add: factor_def float_of_int_def fl_eval fdiv_def) (simp add: fl_round)

lemma code_0_59: "value_to_code (Fin f0_59) (Fin (5764607523034235 / 2 ^ 59)) = Inr 58"
  using fl_exponent [of 5 "f0_59 / (5764607523034235 / 2 ^ 59)"]
  by (simp add: value_to_code_def fdiv_def) (simp add: fl_round f0_59_def)

lemma value_58: "code_to_value 58 (Fin (5764607523034235 / 2 ^ 59)) = Inr (Fin (5224175567749775 / 2 ^ 53))"
  using fl_exponent [of "- 1" "58 * (5764607523034235 / 2 ^ 59)"]
  by (simp add: code_to_value_def float_of_int_def fl_eval) (simp add: fl_round)

lemma float_of_int_small: "\<bar>k\<bar> < 2 ^ 53 \<Longrightarrow> float_of_int k = Inr (Fin (of_int k))"
  by (simp add: float_of_int_def fl_of_int)

subsection \<open>The rounding error\<close>

text \<open>
  The rounding error of \<open>fl\<close>: half a unit in the last place, which is at most the
  fraction \<open>2^-53\<close> of the number in the normal range and \<open>2^-1075\<close> below it.
\<close>

lemma fl_error:
  assumes "fl x = Fin y"
  shows "\<bar>y - x\<bar> \<le> \<bar>x\<bar> * pow2 (- 53) + pow2 (- 1075)"
proof (cases "x = 0")
  case True
  with assms show ?thesis using pow2_pos [of "- 1075"] by (simp add: fl_zero)
next
  case False
  define e where "e = max (ilog2 \<bar>x\<bar>) (- 1022)"
  define u where "u = pow2 (e - 52)"
  define M where "M = round_half_even (x / u)"
  from False have x0: "0 < \<bar>x\<bar>" by simp
  have u0: "0 < u" by (simp add: u_def pow2_pos)
  from assms False have y: "y = of_int M * u"
    by (auto simp: fl_def Let_def e_def u_def M_def split: if_splits)
  have "\<bar>of_int M - x / u\<bar> \<le> 1 / 2" unfolding M_def by (rule round_half_even_error)
  then have "\<bar>of_int M - x / u\<bar> * u \<le> 1 / 2 * u"
    using u0 by (intro mult_right_mono) simp_all
  moreover have "(of_int M - x / u) * u = y - x"
    using u0 by (simp add: y left_diff_distrib)
  then have "\<bar>of_int M - x / u\<bar> * u = \<bar>y - x\<bar>"
    using u0 abs_mult_pos [of u "of_int M - x / u"] by simp
  moreover have "1 / 2 * u = pow2 (e - 53)"
    using pow2_add [of "- 1" "e - 52"] by (simp add: u_def pow2_def)
  ultimately have err: "\<bar>y - x\<bar> \<le> pow2 (e - 53)" by simp
  show ?thesis
  proof (cases "- 1022 \<le> ilog2 \<bar>x\<bar>")
    case True
    then have "e = ilog2 \<bar>x\<bar>" by (simp add: e_def)
    then have "pow2 e \<le> \<bar>x\<bar>" using ilog2_bounds(1) [OF x0] by simp
    then have "pow2 e * pow2 (- 53) \<le> \<bar>x\<bar> * pow2 (- 53)"
      using pow2_pos [of "- 53"] by (intro mult_right_mono) simp_all
    moreover have "pow2 e * pow2 (- 53) = pow2 (e - 53)"
      using pow2_add [of e "- 53"] by simp
    ultimately show ?thesis using err pow2_pos [of "- 1075"] by linarith
  next
    case False
    then have "e = - 1022" by (simp add: e_def)
    with err have "\<bar>y - x\<bar> \<le> pow2 (- 1075)" by simp
    moreover have "0 \<le> \<bar>x\<bar> * pow2 (- 53)" using pow2_pos [of "- 53"] by simp
    ultimately show ?thesis by linarith
  qed
qed

lemma fl_nonneg:
  assumes "fl x = Fin y" and "0 \<le> x"
  shows "0 \<le> y"
proof (cases "x = 0")
  case True
  with assms show ?thesis by (simp add: fl_zero)
next
  case False
  define u where "u = pow2 (max (ilog2 \<bar>x\<bar>) (- 1022) - 52)"
  have u0: "0 < u" by (simp add: u_def pow2_pos)
  from assms False have y: "y = of_int (round_half_even (x / u)) * u"
    by (auto simp: fl_def Let_def u_def split: if_splits)
  from assms(2) u0 have "0 \<le> x / u" by simp
  then have "0 \<le> round_half_even (x / u)" by (rule round_half_even_nonneg)
  with u0 show ?thesis by (simp add: y)
qed

lemma fl_not_NaN: "fl x \<noteq> NaN"
  by (simp add: fl_def Let_def)

text \<open>
  Quantising \<open>x\<close> with a positive factor \<open>f\<close>: the float quotient, its floor and the
  float product. The result is above \<open>x\<close> by no more than the rounding slack, and below
  \<open>x\<close> by no more than \<open>f\<close> and the slack.
\<close>

lemma quantise_error:
  assumes f: "0 < f" and q: "fl (x / f) = Fin q"
    and rt: "fl (of_int \<lfloor>q\<rfloor> * f) = Fin rt"
  shows "rt - x \<le> rounding_slack x f" and "- f - rounding_slack x f \<le> rt - x"
proof -
  define u where "u = pow2 (- 53)"
  define h where "h = pow2 (- 1075)"
  define a where "a = \<bar>x\<bar> * u"
  define b where "b = f * u"
  define c where "c = f * h"
  define kf where "kf = of_int \<lfloor>q\<rfloor> * f"
  define qf where "qf = q * f"
  have u0: "0 < u" and h0: "0 < h" by (simp_all add: u_def h_def pow2_pos)
  have u1: "u \<le> 1" using pow2_mono [of "- 53" 0] by (simp add: u_def pow2_0)
  have a0: "0 \<le> a" and b0: "0 \<le> b" and c0: "0 \<le> c"
    using u0 h0 f by (simp_all add: a_def b_def c_def)
  have slack: "rounding_slack x f = 4 * a + 4 * b + 2 * h + 2 * c"
  proof -
    have "pow2 (- 51) = 4 * u" using pow2_add [of 2 "- 53"] by (simp add: u_def pow2_def)
    moreover have "pow2 (- 1074) = 2 * h"
      using pow2_add [of 1 "- 1075"] by (simp add: h_def pow2_def)
    ultimately show ?thesis
      by (simp add: rounding_slack_def a_def b_def c_def algebra_simps)
  qed
  have "\<bar>q - x / f\<bar> \<le> \<bar>x / f\<bar> * u + h"
    using fl_error [OF q] by (simp add: u_def h_def)
  then have "\<bar>q - x / f\<bar> * f \<le> (\<bar>x / f\<bar> * u + h) * f"
    using f by (intro mult_right_mono) simp_all
  moreover have "(q - x / f) * f = qf - x"
    using f by (simp add: qf_def left_diff_distrib)
  then have "\<bar>q - x / f\<bar> * f = \<bar>qf - x\<bar>"
    using f abs_mult_pos [of f "q - x / f"] by simp
  moreover have "(\<bar>x / f\<bar> * u + h) * f = a + c"
    using f by (simp add: a_def c_def algebra_simps)
  ultimately have A: "\<bar>qf - x\<bar> \<le> a + c" by simp
  have "of_int \<lfloor>q\<rfloor> \<le> q" "q < of_int \<lfloor>q\<rfloor> + 1" by linarith+
  then have "of_int \<lfloor>q\<rfloor> * f \<le> q * f" "q * f < (of_int \<lfloor>q\<rfloor> + 1) * f"
    using f by (simp_all add: mult_right_mono mult_strict_right_mono del: of_int_floor_le)
  then have K: "kf \<le> qf" "qf < kf + f"
    by (simp_all add: kf_def qf_def distrib_right)
  define P where "P = \<bar>kf\<bar> * u"
  define Q where "Q = (a + c) * u"
  have 1: "\<bar>rt - kf\<bar> \<le> P + h"
    using fl_error [OF rt] by (simp add: u_def h_def kf_def P_def)
  have "\<bar>kf\<bar> \<le> \<bar>x\<bar> + (a + c) + f" using A K by linarith
  then have "\<bar>kf\<bar> * u \<le> (\<bar>x\<bar> + (a + c) + f) * u"
    using u0 by (intro mult_right_mono) simp_all
  moreover have "(\<bar>x\<bar> + (a + c) + f) * u = a + Q + b"
    by (simp add: a_def b_def Q_def algebra_simps)
  ultimately have 2: "P \<le> a + Q + b" by (simp add: P_def)
  have "(a + c) * u \<le> (a + c) * 1"
    using u1 a0 c0 by (intro mult_left_mono) simp_all
  then have 3: "Q \<le> a + c" by (simp add: Q_def)
  from 1 2 3 have B: "\<bar>rt - kf\<bar> \<le> 2 * a + c + b + h" by linarith
  from A B K a0 b0 c0 h0 show "rt - x \<le> rounding_slack x f"
    unfolding slack by linarith
  from A B K a0 b0 c0 h0 show "- f - rounding_slack x f \<le> rt - x"
    unfolding slack by linarith
qed

section \<open>The transport link\<close>

lemma split_not_Nil: "split sep bs \<noteq> []"
  by (induction bs) (auto split: list.splits)

lemma hd_split: "hd (split sep bs) = takeWhile (\<lambda>c. c \<noteq> sep) bs"
  by (induction bs) (auto split: list.splits simp: split_not_Nil)

lemma split_Cons:
  "\<exists>rest. split sep bs = takeWhile (\<lambda>c. c \<noteq> sep) bs # rest"
  using split_not_Nil [of sep bs] hd_split [of sep bs]
  by (cases "split sep bs") auto

text \<open>\<^verbatim>\<open>receive\<close> in closed form: the unpacking of the split never fails.\<close>

lemma receive_eq:
  "receive conn =
     (if LF \<in> set (fst (recv 1024 conn))
      then (decode (takeWhile (\<lambda>c. c \<noteq> LF) (fst (recv 1024 conn))), snd (recv 1024 conn))
      else (Inl NameError, snd (recv 1024 conn)))"
proof -
  obtain rest where "split LF (fst (recv 1024 conn))
      = takeWhile (\<lambda>c. c \<noteq> LF) (fst (recv 1024 conn)) # rest"
    using split_Cons by blast
  then show ?thesis
    by (simp add: receive_def split_beta)
qed

lemma receive_sent: "sent (snd (receive conn)) = sent conn"
  by (auto simp: receive_def recv_def Let_def split: list.splits)

text \<open>A code point below 128 comes from a byte of the same value.\<close>

lemma second_ok_224: "second_ok 224 b1 \<Longrightarrow> 160 \<le> b1"
  by (simp add: second_ok_def)

lemma second_ok_240: "second_ok 240 b1 \<Longrightarrow> 144 \<le> b1"
  by (simp add: second_ok_def)

lemma utf8_ascii_mem:
  "utf8 bs = Some s \<Longrightarrow> c \<in> set s \<Longrightarrow> c < 128 \<Longrightarrow> c \<in> set bs"
proof (induction bs arbitrary: s rule: utf8.induct)
  case 1
  then show ?case by simp
next
  case (2 b0 bs)
  consider (one) "b0 < 128"
    | (two) "194 \<le> b0" "b0 \<le> 223"
    | (three) "224 \<le> b0" "b0 \<le> 239"
    | (four) "240 \<le> b0" "b0 \<le> 244"
    | (bad) "128 \<le> b0" "b0 < 194 \<or> 244 < b0"
    by linarith
  then show ?case
  proof cases
    case one
    with "2.prems" "2.IH"(1) show ?thesis by auto
  next
    case two
    with "2.prems"(1) obtain b1 r t where bs: "bs = b1 # r" and b1: "cont b1"
      and t: "utf8 r = Some t" and s: "s = ((b0 - 192) * 64 + (b1 - 128)) # t"
      by (auto split: list.splits if_splits)
    from two s "2.prems"(2,3) have "c \<in> set t" by auto
    with "2.IH"(2) [OF _ _ bs b1 t] two "2.prems"(3) have "c \<in> set r" by auto
    with bs show ?thesis by simp
  next
    case three
    with "2.prems"(1) obtain b1 b2 r t where bs: "bs = b1 # b2 # r"
      and ok: "second_ok b0 b1 \<and> cont b2"
      and t: "utf8 r = Some t"
      and s: "s = ((b0 - 224) * 4096 + (b1 - 128) * 64 + (b2 - 128)) # t"
      by (auto split: list.splits if_splits)
    have "128 \<le> (b0 - 224) * 4096 + (b1 - 128) * 64 + (b2 - 128)"
    proof (cases "b0 = 224")
      case True
      with ok have "160 \<le> b1" by (simp add: second_ok_224)
      then show ?thesis by linarith
    next
      case False
      with three have "1 \<le> b0 - 224" by linarith
      then show ?thesis by linarith
    qed
    with s "2.prems"(2,3) have "c \<in> set t" by auto
    with "2.IH"(3) [OF _ _ _ bs _ ok t] three "2.prems"(3) have "c \<in> set r" by auto
    with bs show ?thesis by simp
  next
    case four
    with "2.prems"(1) obtain b1 b2 b3 r t where bs: "bs = b1 # b2 # b3 # r"
      and ok: "second_ok b0 b1 \<and> cont b2 \<and> cont b3"
      and t: "utf8 r = Some t"
      and s: "s = ((b0 - 240) * 262144 + (b1 - 128) * 4096 + (b2 - 128) * 64 + (b3 - 128)) # t"
      by (auto split: list.splits if_splits)
    have "128 \<le> (b0 - 240) * 262144 + (b1 - 128) * 4096 + (b2 - 128) * 64 + (b3 - 128)"
    proof (cases "b0 = 240")
      case True
      with ok have "144 \<le> b1" by (simp add: second_ok_240)
      then show ?thesis by linarith
    next
      case False
      with four have "1 \<le> b0 - 240" by linarith
      then show ?thesis by linarith
    qed
    with s "2.prems"(2,3) have "c \<in> set t" by auto
    with "2.IH"(4) [OF _ _ _ _ bs _ _ ok t] four "2.prems"(3) have "c \<in> set r" by auto
    with bs show ?thesis by simp
  next
    case bad
    with "2.prems"(1) show ?thesis by auto
  qed
qed
lemma of_char_LF: "of_char c = (10::nat) \<longleftrightarrow> c = LF"
proof -
  have "of_char LF = (10::nat)" by (simp add: LF_def)
  then have "of_char c = (10::nat) \<longleftrightarrow> (of_char c :: nat) = of_char LF" by simp
  then show ?thesis by (simp only: of_char_eq_iff)
qed

lemma decode_no_LF:
  assumes "decode bs = Inr s" and "LF \<notin> set bs"
  shows "10 \<notin> set s"
proof
  assume "10 \<in> set s"
  moreover from assms(1) have "utf8 (map of_char bs) = Some s"
    by (simp add: decode_def split: option.splits)
  ultimately have "(10::nat) \<in> set (map of_char bs)"
    using utf8_ascii_mem [of "map of_char bs" s 10] by simp
  then obtain c where "c \<in> set bs" "of_char c = (10::nat)" by auto
  with assms(2) show False by (simp add: of_char_LF)
qed

text \<open>What \<^verbatim>\<open>receive\<close> returns never contains a line feed.\<close>

lemma receive_no_LF:
  assumes "fst (receive conn) = Inr r"
  shows "10 \<notin> set r"
proof -
  let ?data = "fst (recv 1024 conn)"
  from assms have "decode (takeWhile (\<lambda>c. c \<noteq> LF) ?data) = Inr r"
    by (simp add: receive_eq split: if_splits)
  moreover have "LF \<notin> set (takeWhile (\<lambda>c. c \<noteq> LF) ?data)"
    by (auto dest: set_takeWhileD)
  ultimately show ?thesis by (rule decode_no_LF)
qed

lemma receive_not_open_newline:
  "fst (receive conn) \<noteq> Inr (str ''open\<newline>'')"
proof
  assume "fst (receive conn) = Inr (str ''open\<newline>'')"
  then have "10 \<notin> set (str ''open\<newline>'')" by (rule receive_no_LF)
  then show False by (simp add: str_def)
qed

section \<open>The setters\<close>

text \<open>
  The code of a value converts without rounding, so that its quantised value
  \<^verbatim>\<open>1.0 * code * f\<close> is the float product of the code and the factor.
\<close>

lemma value_to_code_exact:
  assumes "value_to_code v f = Inr code"
  shows "fl (of_int code) = Fin (of_int code)"
proof -
  from assms have nz: "f \<noteq> Fin 0" and c: "math_floor (fquot v f) = Inr code"
    by (auto simp: value_to_code_def fdiv_def split: if_splits)
  from c obtain y where q: "fquot v f = Fin y" and code: "code = \<lfloor>y\<rfloor>"
    by (cases "fquot v f") auto
  show ?thesis
  proof (cases v)
    case (Fin x)
    note v = this
    show ?thesis
    proof (cases f)
      case (Fin g)
      with v q have "fl (x / g) = Fin y" by simp
      then show ?thesis unfolding code by (rule fl_floor_exact)
    next
      case (Inf b)
      with v q have "y = 0" by simp
      then show ?thesis by (simp add: code fl_zero)
    next
      case NaN
      with v q show ?thesis by simp
    qed
  next
    case (Inf b)
    with q show ?thesis by (cases f) auto
  next
    case NaN
    with q show ?thesis by simp
  qed
qed

lemma code_to_value_product:
  assumes "value_to_code v f = Inr code"
  shows "code_to_value code g = Inr (fmul (Fin (of_int code)) g)"
  using value_to_code_exact [OF assms]
  by (simp add: code_to_value_def float_of_int_def)

lemma set_voltage_range_error:
  assumes "value_to_code v (voltage_set_factor s) = Inr code"
    and "code < 0 \<or> dac_resolution (props s) \<le> code"
  shows "set_voltage v s = (Inl (VoltageExceededError code), s)"
  using assms by (auto simp: set_voltage_def)

lemma set_current_range_error:
  assumes "value_to_code v (current_set_factor s) = Inr code"
    and "code < 0 \<or> dac_resolution (props s) \<le> code"
  shows "set_current v s = (Inl (CurrentExceededError code), s)"
  using assms by (auto simp: set_current_def)

text \<open>The setters once the code is in range and the quantised setpoint is computed.\<close>

lemma set_voltage_in_range:
  assumes "value_to_code v (voltage_set_factor s) = Inr code"
    and "0 \<le> code" and "code < dac_resolution (props s)"
    and "code_to_value code (voltage_set_factor s) = Inr q"
  shows "set_voltage v s =
     (let (response, c) = receive (send ('':V '' @ format_d code) (connection s)) in
      case response of
        Inl e \<Rightarrow> (Inl e, s\<lparr>connection := c\<rparr>)
      | Inr r \<Rightarrow> if r = str ''OK''
                 then (Inr (), s\<lparr>connection := c, voltage_setpoint := q\<rparr>)
                 else (Inl ValueError, s\<lparr>connection := c\<rparr>))"
  using assms by (simp add: set_voltage_def Let_def split_beta split: sum.splits)

lemma set_current_in_range:
  assumes "value_to_code v (current_set_factor s) = Inr code"
    and "0 \<le> code" and "code < dac_resolution (props s)"
    and "code_to_value code (current_set_factor s) = Inr q"
  shows "set_current v s =
     (let (response, c) = receive (send ('':C '' @ format_d code) (connection s)) in
      case response of
        Inl e \<Rightarrow> (Inl e, s\<lparr>connection := c\<rparr>)
      | Inr r \<Rightarrow> if r = str ''OK''
                 then (Inr (), s\<lparr>connection := c, current_setpoint := q\<rparr>)
                 else (Inl ValueError, s\<lparr>connection := c\<rparr>))"
  using assms by (simp add: set_current_def Let_def split_beta split: sum.splits)

text \<open>A setter writes at most one frame, and only one that carries an in-range code.\<close>

lemma set_voltage_sent:
  "sent (connection (snd (set_voltage v s))) = sent (connection s) \<or>
   (\<exists>code. 0 \<le> code \<and> code < dac_resolution (props s) \<and>
      value_to_code v (voltage_set_factor s) = Inr code \<and>
      sent (connection (snd (set_voltage v s)))
        = sent (connection s) @ ['':V '' @ format_d code @ [LF]])"
  by (auto simp: set_voltage_def Let_def split_beta receive_sent send_def split: sum.splits)

lemma set_current_sent:
  "sent (connection (snd (set_current v s))) = sent (connection s) \<or>
   (\<exists>code. 0 \<le> code \<and> code < dac_resolution (props s) \<and>
      value_to_code v (current_set_factor s) = Inr code \<and>
      sent (connection (snd (set_current v s)))
        = sent (connection s) @ ['':C '' @ format_d code @ [LF]])"
  by (auto simp: set_current_def Let_def split_beta receive_sent send_def split: sum.splits)

text \<open>What a setter leaves alone.\<close>

lemma set_voltage_frame:
  "props (snd (set_voltage v s)) = props s"
  "voltage_set_factor (snd (set_voltage v s)) = voltage_set_factor s"
  "current_set_factor (snd (set_voltage v s)) = current_set_factor s"
  "current_setpoint (snd (set_voltage v s)) = current_setpoint s"
  by (auto simp: set_voltage_def Let_def split_beta split: sum.splits)

lemma set_current_frame:
  "props (snd (set_current v s)) = props s"
  "voltage_set_factor (snd (set_current v s)) = voltage_set_factor s"
  "current_set_factor (snd (set_current v s)) = current_set_factor s"
  "voltage_setpoint (snd (set_current v s)) = voltage_setpoint s"
  by (auto simp: set_current_def Let_def split_beta split: sum.splits)

lemma set_voltage_error_keeps:
  "fst (set_voltage v s) = Inl e \<Longrightarrow>
     voltage_setpoint (snd (set_voltage v s)) = voltage_setpoint s"
  by (auto simp: set_voltage_def Let_def split_beta split: sum.splits if_splits)

lemma set_current_error_keeps:
  "fst (set_current v s) = Inl e \<Longrightarrow>
     current_setpoint (snd (set_current v s)) = current_setpoint s"
  by (auto simp: set_current_def Let_def split_beta split: sum.splits if_splits)

text \<open>A setter keeps the setpoint or stores the quantised value of an in-range code.\<close>

lemma set_voltage_setpoint:
  "voltage_setpoint (snd (set_voltage v s)) = voltage_setpoint s \<or>
   (\<exists>code. 0 \<le> code \<and> code < dac_resolution (props s) \<and>
      code_to_value code (voltage_set_factor s)
        = Inr (voltage_setpoint (snd (set_voltage v s))))"
  by (auto simp: set_voltage_def Let_def split_beta split: sum.splits if_splits)

lemma set_current_setpoint:
  "current_setpoint (snd (set_current v s)) = current_setpoint s \<or>
   (\<exists>code. 0 \<le> code \<and> code < dac_resolution (props s) \<and>
      code_to_value code (current_set_factor s)
        = Inr (current_setpoint (snd (set_current v s))))"
  by (auto simp: set_current_def Let_def split_beta split: sum.splits if_splits)

text \<open>What a setter that succeeds has done.\<close>

lemma set_voltage_ok:
  assumes "fst (set_voltage v s) = Inr ()"
  shows "\<exists>code q. value_to_code v (voltage_set_factor s) = Inr code \<and>
           0 \<le> code \<and> code < dac_resolution (props s) \<and>
           code_to_value code (voltage_set_factor s) = Inr q \<and>
           voltage_setpoint (snd (set_voltage v s)) = q"
  using assms
  by (auto simp: set_voltage_def Let_def split_beta split: sum.splits if_splits)

lemma set_current_ok:
  assumes "fst (set_current v s) = Inr ()"
  shows "\<exists>code q. value_to_code v (current_set_factor s) = Inr code \<and>
           0 \<le> code \<and> code < dac_resolution (props s) \<and>
           code_to_value code (current_set_factor s) = Inr q \<and>
           current_setpoint (snd (set_current v s)) = q"
  using assms
  by (auto simp: set_current_def Let_def split_beta split: sum.splits if_splits)

text \<open>With a positive factor and an exact quotient, the code is the floor of the quotient.\<close>

lemma exact_quantised:
  assumes f: "0 < f" and div: "fl (x / f) = Fin (x / f)"
  shows "value_to_code (Fin x) (Fin f) = Inr \<lfloor>x / f\<rfloor>"
    and "code_to_value \<lfloor>x / f\<rfloor> (Fin f) = Inr (fl (of_int \<lfloor>x / f\<rfloor> * f))"
    and "of_int \<lfloor>x / f\<rfloor> * f \<le> x" and "x < of_int \<lfloor>x / f\<rfloor> * f + f"
proof -
  from f div show c: "value_to_code (Fin x) (Fin f) = Inr \<lfloor>x / f\<rfloor>"
    by (simp add: value_to_code_def fdiv_def)
  from code_to_value_product [OF c]
  show "code_to_value \<lfloor>x / f\<rfloor> (Fin f) = Inr (fl (of_int \<lfloor>x / f\<rfloor> * f))"
    by simp
  have xf: "x / f * f = x" using f by simp
  have "of_int \<lfloor>x / f\<rfloor> * f \<le> x / f * f"
    using f by (intro mult_right_mono) simp_all
  then show "of_int \<lfloor>x / f\<rfloor> * f \<le> x" by (simp only: xf)
  have "x / f < of_int \<lfloor>x / f\<rfloor> + 1" by linarith
  then have "x / f * f < (of_int \<lfloor>x / f\<rfloor> + 1) * f"
    using f by (intro mult_strict_right_mono)
  then show "x < of_int \<lfloor>x / f\<rfloor> * f + f" by (simp only: xf distrib_right mult_1)
qed

text \<open>A code of a finite value with a finite factor is the floor of the float quotient.\<close>

lemma value_to_code_Fin:
  assumes "value_to_code (Fin x) (Fin f) = Inr k"
  shows "f \<noteq> 0" and "\<exists>q. fl (x / f) = Fin q \<and> k = \<lfloor>q\<rfloor>"
proof -
  from assms show "f \<noteq> 0"
    by (auto simp: value_to_code_def fdiv_def split: if_splits)
  from assms have "math_floor (fl (x / f)) = Inr k"
    by (auto simp: value_to_code_def fdiv_def split: if_splits)
  then show "\<exists>q. fl (x / f) = Fin q \<and> k = \<lfloor>q\<rfloor>"
    by (cases "fl (x / f)") auto
qed

text \<open>The quantised value of the code of \<open>x\<close>, for a positive factor.\<close>

lemma quantised_value_error:
  assumes f: "0 < f" and k: "value_to_code (Fin x) (Fin f) = Inr k"
    and y: "code_to_value k (Fin f) = Inr (Fin y)"
  shows "y \<le> x + rounding_slack x f" and "\<bar>y - x\<bar> \<le> f + rounding_slack x f"
proof -
  from value_to_code_Fin(2) [OF k] obtain q where q: "fl (x / f) = Fin q" and kq: "k = \<lfloor>q\<rfloor>"
    by blast
  from code_to_value_product [OF k, of "Fin f"] y have "fl (of_int \<lfloor>q\<rfloor> * f) = Fin y"
    by (simp add: kq)
  note e = quantise_error [OF f q this]
  from e(1) show "y \<le> x + rounding_slack x f" by linarith
  have "0 \<le> rounding_slack x f"
    using f pow2_pos [of "- 51"] pow2_pos [of "- 1074"] by (simp add: rounding_slack_def)
  with e f show "\<bar>y - x\<bar> \<le> f + rounding_slack x f" by linarith
qed

text \<open>The factor of a range that is not negative is not negative.\<close>

lemma factor_nonneg:
  assumes r: "0 \<le> r" and n: "0 < n" and fac: "factor (Fin r) n = Inr (Fin f)"
  shows "0 \<le> f"
proof -
  from fac obtain m where m: "fl (of_int n) = Fin m"
    and d: "fdiv (fmul (Fin 1) (Fin r)) (Fin m) = Inr (Fin f)"
    using fl_not_NaN [of "of_int n"]
    by (cases "fl (of_int n)") (auto simp: factor_def float_of_int_def)
  from n have m0: "0 \<le> m" by (simp add: fl_nonneg [OF m])
  from d have q: "fquot (fl r) (Fin m) = Fin f"
    by (simp add: fdiv_def split: if_splits)
  then obtain r' where r': "fl r = Fin r'" by (cases "fl r") auto
  from r' r have "0 \<le> r'" by (rule fl_nonneg)
  with m0 have "0 \<le> r' / m" by simp
  with q r' show ?thesis by (simp add: fl_nonneg [of "r' / m" f])
qed

section \<open>The interlock query\<close>

text \<open>
  The comparison \<^verbatim>\<open>response == "open\n"\<close> is never true, because \<^verbatim>\<open>receive\<close> has cut
  the response at the line feed: the query only exchanges one frame.
\<close>

lemma interlock_eq:
  "interlock s =
     (fst (receive (send '':ILOCK?'' (connection s))),
      s\<lparr>connection := snd (receive (send '':ILOCK?'' (connection s)))\<rparr>)"
  using receive_not_open_newline [of "send '':ILOCK?'' (connection s)"]
  by (auto simp: interlock_def Let_def split_beta split: sum.splits)

lemma query_eq:
  "query m s = (fst (receive (send m (connection s))),
                s\<lparr>connection := snd (receive (send m (connection s)))\<rparr>)"
  by (simp add: query_def split_beta)

section \<open>The commits of \<^verbatim>\<open>enable\<close>\<close>

text \<open>The code of 0.0 is 0 whenever it can be computed, and its quantised value is 0.\<close>

lemma value_to_code_zero:
  "value_to_code (Fin 0) f = Inr code \<Longrightarrow> code = 0"
  by (cases f) (auto simp: value_to_code_def fdiv_def fl_zero split: if_splits)

lemma code_to_value_zero: "code_to_value 0 (Fin f) = Inr (Fin 0)"
  by (simp add: code_to_value_def float_of_int_def fl_zero)

text \<open>What the two commits of \<^verbatim>\<open>enable\<close> do when they succeed.\<close>

lemma set_voltage_zero_ok:
  assumes "fst (set_voltage (Fin 0) s) = Inr ()"
  shows "sent (connection (snd (set_voltage (Fin 0) s)))
           = sent (connection s) @ ['':V 0\<newline>'']"
    and "\<exists>q. code_to_value 0 (voltage_set_factor s) = Inr q \<and>
           voltage_setpoint (snd (set_voltage (Fin 0) s)) = q"
proof -
  from assms obtain code where c: "value_to_code (Fin 0) (voltage_set_factor s) = Inr code"
    by (auto simp: set_voltage_def split: sum.splits)
  then have code: "code = 0" by (rule value_to_code_zero)
  from assms c code have r: "0 < dac_resolution (props s)"
    by (auto simp: set_voltage_def split: sum.splits if_splits)
  from assms c code r obtain q where q: "code_to_value 0 (voltage_set_factor s) = Inr q"
    by (auto simp: set_voltage_def split: sum.splits if_splits)
  have f: "format_d 0 = ''0''" by (simp add: format_d_def)
  from set_voltage_in_range [of "Fin 0" s 0 q] c code r q assms
  show "sent (connection (snd (set_voltage (Fin 0) s)))
           = sent (connection s) @ ['':V 0\<newline>'']"
    by (auto simp: split_beta f receive_sent send_def LF_def split: sum.splits if_splits)
  from set_voltage_in_range [of "Fin 0" s 0 q] c code r q assms
  show "\<exists>q. code_to_value 0 (voltage_set_factor s) = Inr q \<and>
           voltage_setpoint (snd (set_voltage (Fin 0) s)) = q"
    by (auto simp: split_beta f split: sum.splits if_splits)
qed

lemma set_current_zero_ok:
  assumes "fst (set_current (Fin 0) s) = Inr ()"
  shows "sent (connection (snd (set_current (Fin 0) s)))
           = sent (connection s) @ ['':C 0\<newline>'']"
    and "\<exists>q. code_to_value 0 (current_set_factor s) = Inr q \<and>
           current_setpoint (snd (set_current (Fin 0) s)) = q"
proof -
  from assms obtain code where c: "value_to_code (Fin 0) (current_set_factor s) = Inr code"
    by (auto simp: set_current_def split: sum.splits)
  then have code: "code = 0" by (rule value_to_code_zero)
  from assms c code have r: "0 < dac_resolution (props s)"
    by (auto simp: set_current_def split: sum.splits if_splits)
  from assms c code r obtain q where q: "code_to_value 0 (current_set_factor s) = Inr q"
    by (auto simp: set_current_def split: sum.splits if_splits)
  have f: "format_d 0 = ''0''" by (simp add: format_d_def)
  from set_current_in_range [of "Fin 0" s 0 q] c code r q assms
  show "sent (connection (snd (set_current (Fin 0) s)))
           = sent (connection s) @ ['':C 0\<newline>'']"
    by (auto simp: split_beta f receive_sent send_def LF_def split: sum.splits if_splits)
  from set_current_in_range [of "Fin 0" s 0 q] c code r q assms
  show "\<exists>q. code_to_value 0 (current_set_factor s) = Inr q \<and>
           current_setpoint (snd (set_current (Fin 0) s)) = q"
    by (auto simp: split_beta f split: sum.splits if_splits)
qed

text \<open>\<^verbatim>\<open>enable\<close> in terms of the outcomes of its two commits.\<close>

lemma enable_eq:
  "enable s =
     (case fst (set_voltage (Fin 0) s) of
        Inl e \<Rightarrow> (Inl e, snd (set_voltage (Fin 0) s))
      | Inr _ \<Rightarrow>
          (case fst (set_current (Fin 0) (snd (set_voltage (Fin 0) s))) of
             Inl e \<Rightarrow> (Inl e, snd (set_current (Fin 0) (snd (set_voltage (Fin 0) s))))
           | Inr _ \<Rightarrow> query '':ON'' (snd (set_current (Fin 0) (snd (set_voltage (Fin 0) s))))))"
proof (cases "set_voltage (Fin 0) s")
  case (Pair r1 s1)
  show ?thesis
  proof (cases "set_current (Fin 0) s1")
    case (Pair r2 s2)
    with \<open>set_voltage (Fin 0) s = (r1, s1)\<close> show ?thesis
      by (simp add: enable_def split: sum.splits)
  qed
qed


section \<open>Steps of the running device\<close>

text \<open>Every operation is a \<open>setpoint_step\<close>, and so is every sequence of operations.\<close>

lemma setpoint_step_refl: "setpoint_step s s"
  by (simp add: setpoint_step_def)

lemma setpoint_step_trans:
  "setpoint_step s s' \<Longrightarrow> setpoint_step s' s'' \<Longrightarrow> setpoint_step s s''"
  by (auto simp: setpoint_step_def)

lemma setpoint_step_connection: "setpoint_step s (s\<lparr>connection := c\<rparr>)"
  by (simp add: setpoint_step_def)

lemma setpoint_step_set_voltage: "setpoint_step s (snd (set_voltage v s))"
  using set_voltage_setpoint [of v s]
  by (auto simp: setpoint_step_def set_voltage_frame quantised_def)

lemma setpoint_step_set_current: "setpoint_step s (snd (set_current v s))"
  using set_current_setpoint [of v s]
  by (auto simp: setpoint_step_def set_current_frame quantised_def)

lemma setpoint_step_query: "setpoint_step s (snd (query m s))"
  by (simp add: query_eq setpoint_step_connection)

lemma setpoint_step_readback: "setpoint_step s (snd (readback float m g s))"
  using setpoint_step_query [of s m]
  by (auto simp: readback_def split_beta split: sum.splits option.splits)

lemma setpoint_step_interlock: "setpoint_step s (snd (interlock s))"
  by (simp add: interlock_eq setpoint_step_connection)

lemma setpoint_step_enable: "setpoint_step s (snd (enable s))"
proof -
  let ?s1 = "snd (set_voltage (Fin 0) s)"
  let ?s2 = "snd (set_current (Fin 0) ?s1)"
  have 1: "setpoint_step s ?s1" by (rule setpoint_step_set_voltage)
  have 2: "setpoint_step s ?s2"
    using 1 setpoint_step_set_current by (rule setpoint_step_trans)
  have 3: "setpoint_step s (snd (query '':ON'' ?s2))"
    using 2 setpoint_step_query by (rule setpoint_step_trans)
  from 1 2 3 show ?thesis
    by (simp add: enable_eq split: sum.splits)
qed

lemma setpoint_step_quantised:
  "setpoint_step s s' \<Longrightarrow> setpoints_quantised s \<Longrightarrow> setpoints_quantised s'"
  by (auto simp: setpoint_step_def setpoints_quantised_def)

lemma init_device_Inr:
  assumes "init_device p (Some c) = Inr s"
  shows "props s = p"
    and "factor (voltage_range p) (dac_resolution p) = Inr (voltage_set_factor s)"
    and "factor (current_range p) (dac_resolution p) = Inr (current_set_factor s)"
    and "voltage_setpoint s = Fin 0" and "current_setpoint s = Fin 0"
    and "connection s = c"
  using assms by (auto simp: init_device_def split: sum.splits)

lemma quantised_zero: "0 < n \<Longrightarrow> quantised n (Fin f) (Fin 0)"
  by (auto simp: quantised_def code_to_value_zero intro!: bexI [of _ 0])

text \<open>Every reachable state is a \<open>setpoint_step\<close> away from a state \<^verbatim>\<open>init_device\<close> made.\<close>

lemma reachable_from_init:
  "reachable p s \<Longrightarrow> \<exists>s0 c. init_device p (Some c) = Inr s0 \<and> setpoint_step s0 s"
proof (induction rule: reachable.induct)
  case (init c s)
  then show ?case using setpoint_step_refl by blast
next
  case (write_voltage s v)
  moreover have "setpoint_step s (snd (write_voltage_setpoint v s))"
    by (simp add: write_voltage_setpoint_def split_beta setpoint_step_set_voltage)
  ultimately show ?case by (blast intro: setpoint_step_trans)
next
  case (write_current s v)
  moreover have "setpoint_step s (snd (write_current_setpoint v s))"
    by (simp add: write_current_setpoint_def split_beta setpoint_step_set_current)
  ultimately show ?case by (blast intro: setpoint_step_trans)
next
  case (read_voltage s float)
  moreover have "setpoint_step s (snd (voltage float s))"
    by (simp add: voltage_def setpoint_step_readback)
  ultimately show ?case by (blast intro: setpoint_step_trans)
next
  case (read_current s float)
  moreover have "setpoint_step s (snd (current float s))"
    by (simp add: current_def setpoint_step_readback)
  ultimately show ?case by (blast intro: setpoint_step_trans)
next
  case (read_filament s float)
  moreover have "setpoint_step s (snd (filament float s))"
    by (simp add: filament_def setpoint_step_readback)
  ultimately show ?case by (blast intro: setpoint_step_trans)
next
  case (read_interlock s)
  then show ?case by (blast intro: setpoint_step_trans setpoint_step_interlock)
next
  case (do_enable s)
  then show ?case by (blast intro: setpoint_step_trans setpoint_step_enable)
next
  case (do_disable s)
  moreover have "setpoint_step s (snd (disable s))"
    by (simp add: disable_def setpoint_step_query)
  ultimately show ?case by (blast intro: setpoint_step_trans)
next
  case (do_IDN s)
  moreover have "setpoint_step s (snd (IDN s))"
    by (simp add: IDN_def setpoint_step_query)
  ultimately show ?case by (blast intro: setpoint_step_trans)
qed

section \<open>Evaluating the examples\<close>

lemmas device_eval =
  set_voltage_def set_current_def value_to_code_def code_to_value_def fdiv_def
  float_of_int_def fl_eval example_device_def example_props_def format_d_def
  send_def receive_eq recv_def LF_def decode_def str_def enable_def query_def
  Let_def split_beta

text \<open>\<^verbatim>\<open>init_device\<close> on the example properties gives the example device at setpoints 0.\<close>

lemma example_init:
  "init_device example_props (Some \<lparr>inbox = segs, sent = []\<rparr>)
     = Inr ((example_device segs)\<lparr>current_setpoint := Fin 0, voltage_setpoint := Fin 0\<rparr>)"
  by (simp add: init_device_def factor_def device_eval)

section \<open>Claims about the transport link\<close>

text \<open>
  C5. Whatever bytes one \<^verbatim>\<open>recv(1024)\<close> yields: without a line feed among them
  \<^verbatim>\<open>receive\<close> raises (the \<^verbatim>\<open>NameError\<close> of \<^verbatim>\<open>raise SocketError\<close>, the failure the
  specification calls a protocol error) and returns no truncated string; with a line
  feed it returns the decoding of the bytes before the first line feed (which is
  \<^verbatim>\<open>UnicodeDecodeError\<close> when those bytes are not UTF-8).
\<close>

theorem receive_terminator:
  "(LF \<notin> set (fst (recv 1024 conn)) \<longrightarrow> fst (receive conn) = Inl NameError) \<and>
   (LF \<in> set (fst (recv 1024 conn)) \<longrightarrow>
      fst (receive conn) = decode (takeWhile (\<lambda>c. c \<noteq> LF) (fst (recv 1024 conn))))"
  by (simp add: receive_eq)

theorem receive_terminator_witness:
  "LF \<notin> set (fst (recv 1024 \<lparr>inbox = [''OK''], sent = []\<rparr>)) \<and>
   fst (receive \<lparr>inbox = [''OK''], sent = []\<rparr>) = Inl NameError \<and>
   LF \<in> set (fst (recv 1024 \<lparr>inbox = [''OK\<newline>''], sent = []\<rparr>)) \<and>
   takeWhile (\<lambda>c. c \<noteq> LF) (fst (recv 1024 \<lparr>inbox = [''OK\<newline>''], sent = []\<rparr>)) = ''OK'' \<and>
   fst (receive \<lparr>inbox = [''OK\<newline>''], sent = []\<rparr>) = Inr (str ''OK'')"
proof -
  have a: "LF \<notin> set (fst (recv 1024 \<lparr>inbox = [''OK''], sent = []\<rparr>))"
    by (simp add: recv_def LF_def)
  have b: "LF \<in> set (fst (recv 1024 \<lparr>inbox = [''OK\<newline>''], sent = []\<rparr>))"
    by (simp add: recv_def LF_def)
  have c: "takeWhile (\<lambda>c. c \<noteq> LF) (fst (recv 1024 \<lparr>inbox = [''OK\<newline>''], sent = []\<rparr>)) = ''OK''"
    by (simp add: recv_def LF_def)
  have d: "decode ''OK'' = Inr (str ''OK'')"
    by (simp add: decode_def str_def)
  show ?thesis
    using a b c d
      receive_terminator [of "\<lparr>inbox = [''OK''], sent = []\<rparr>"]
      receive_terminator [of "\<lparr>inbox = [''OK\<newline>''], sent = []\<rparr>"]
    by simp
qed

text \<open>
  C10. When the bytes of one \<^verbatim>\<open>recv\<close> contain a line feed, \<^verbatim>\<open>receive\<close> returns the part
  before the first one, whatever follows it, and leaves the connection as \<^verbatim>\<open>recv\<close> left
  it: the bytes after the first line feed, further complete lines included, are not
  kept for the next \<^verbatim>\<open>receive\<close>, which reads the next segment.
\<close>

theorem receive_discards_rest:
  "(recv 1024 conn = (pre @ LF # rest, conn') \<and> LF \<notin> set pre
      \<longrightarrow> receive conn = (decode pre, conn')) \<and>
   (inbox conn = (pre @ LF # rest) # segs \<and> length (pre @ LF # rest) \<le> 1024 \<and> LF \<notin> set pre
      \<longrightarrow> receive conn = (decode pre, conn\<lparr>inbox := segs\<rparr>))"
proof -
  have tw: "LF \<notin> set pre \<Longrightarrow> takeWhile (\<lambda>c. c \<noteq> LF) (pre @ LF # rest) = pre"
    by (auto simp: takeWhile_tail)
  have 1: "recv 1024 conn = (pre @ LF # rest, conn') \<and> LF \<notin> set pre
      \<longrightarrow> receive conn = (decode pre, conn')"
    using tw by (simp add: receive_eq)
  have 2: "inbox conn = (pre @ LF # rest) # segs \<and> length (pre @ LF # rest) \<le> 1024 \<and> LF \<notin> set pre
      \<longrightarrow> receive conn = (decode pre, conn\<lparr>inbox := segs\<rparr>)"
    using tw by (simp add: receive_eq recv_def)
  from 1 2 show ?thesis by blast
qed

theorem receive_discards_rest_witness:
  "inbox \<lparr>inbox = [''OK\<newline>open\<newline>'', ''closed\<newline>''], sent = []\<rparr>
     = (''OK'' @ LF # ''open\<newline>'') # [''closed\<newline>''] \<and>
   length (''OK'' @ LF # ''open\<newline>'') \<le> 1024 \<and> LF \<notin> set ''OK'' \<and>
   recv 1024 \<lparr>inbox = [''OK\<newline>open\<newline>'', ''closed\<newline>''], sent = []\<rparr>
     = (''OK'' @ LF # ''open\<newline>'', \<lparr>inbox = [''closed\<newline>''], sent = []\<rparr>) \<and>
   receive \<lparr>inbox = [''OK\<newline>open\<newline>'', ''closed\<newline>''], sent = []\<rparr>
     = (Inr (str ''OK''), \<lparr>inbox = [''closed\<newline>''], sent = []\<rparr>)"
proof -
  let ?conn = "\<lparr>inbox = [''OK\<newline>open\<newline>'', ''closed\<newline>''], sent = []\<rparr>"
  have a: "inbox ?conn = (''OK'' @ LF # ''open\<newline>'') # [''closed\<newline>'']"
    by (simp add: LF_def)
  have b: "length (''OK'' @ LF # ''open\<newline>'') \<le> 1024"
    by simp
  have c: "LF \<notin> set ''OK''"
    by (simp add: LF_def)
  have d: "recv 1024 ?conn
      = (''OK'' @ LF # ''open\<newline>'', \<lparr>inbox = [''closed\<newline>''], sent = []\<rparr>)"
    by (simp add: recv_def LF_def)
  have e: "decode ''OK'' = Inr (str ''OK'')"
    by (simp add: decode_def str_def)
  from receive_discards_rest
         [of ?conn "''OK''" "''open\<newline>''" "\<lparr>inbox = [''closed\<newline>''], sent = []\<rparr>"
             "[''closed\<newline>'']"]
       c d e
  have "receive ?conn = (Inr (str ''OK''), \<lparr>inbox = [''closed\<newline>''], sent = []\<rparr>)"
    by simp
  with a b c d show ?thesis by blast
qed

section \<open>Claims about the interlock\<close>

text \<open>
  C1. The controller reports an open interlock with the frame \<^verbatim>\<open>open\n\<close>. The claim is
  that the query then leaves both stored setpoints at 0.0 and sends nothing but
  \<^verbatim>\<open>:ILOCK?\<close>. The device does send nothing else, but it compares the response, from
  which \<^verbatim>\<open>receive\<close> has removed the line feed, with \<^verbatim>\<open>"open\n"\<close>: at the setpoints
  5 kV and 2 mA the query returns \<^verbatim>\<open>"open"\<close> and the setpoints stay 5 and 2.
\<close>

theorem interlock_open_keeps_setpoints:
  "interlock (example_device [''open\<newline>'']) =
     (Inr (str ''open''),
      (example_device [])\<lparr>connection := \<lparr>inbox = [], sent = ['':ILOCK?\<newline>'']\<rparr>\<rparr>) \<and>
   voltage_setpoint (snd (interlock (example_device [''open\<newline>'']))) = Fin 5 \<and>
   current_setpoint (snd (interlock (example_device [''open\<newline>'']))) = Fin 2"
  by (simp add: interlock_eq example_device_def send_def receive_eq recv_def LF_def
      decode_def str_def)


section \<open>Claims about the setpoint commit\<close>

text \<open>
  C2. When the code \<^verbatim>\<open>math.floor(v / set_factor)\<close> of the requested value is negative
  or at least \<^verbatim>\<open>dac_resolution\<close>, \<^verbatim>\<open>set_voltage\<close> raises \<^verbatim>\<open>VoltageExceededError\<close> and
  \<^verbatim>\<open>set_current\<close> raises \<^verbatim>\<open>CurrentExceededError\<close>, each with that code, and the device
  is as before: no setpoint has changed and nothing was sent. Consequently a setter
  either sends nothing or sends one frame whose code \<open>c\<close> satisfies
  \<open>0 \<le> c < dac_resolution\<close>.
\<close>

theorem range_check_rejects:
  "(value_to_code v (voltage_set_factor s) = Inr code \<and>
      (code < 0 \<or> dac_resolution (props s) \<le> code)
      \<longrightarrow> set_voltage v s = (Inl (VoltageExceededError code), s)) \<and>
   (value_to_code v (current_set_factor s) = Inr code \<and>
      (code < 0 \<or> dac_resolution (props s) \<le> code)
      \<longrightarrow> set_current v s = (Inl (CurrentExceededError code), s)) \<and>
   (sent (connection (snd (set_voltage v s))) = sent (connection s) \<or>
      (\<exists>c. 0 \<le> c \<and> c < dac_resolution (props s) \<and>
         sent (connection (snd (set_voltage v s)))
           = sent (connection s) @ ['':V '' @ format_d c @ [LF]])) \<and>
   (sent (connection (snd (set_current v s))) = sent (connection s) \<or>
      (\<exists>c. 0 \<le> c \<and> c < dac_resolution (props s) \<and>
         sent (connection (snd (set_current v s)))
           = sent (connection s) @ ['':C '' @ format_d c @ [LF]]))"
proof -
  have 1: "value_to_code v (voltage_set_factor s) = Inr code \<and>
      (code < 0 \<or> dac_resolution (props s) \<le> code)
      \<longrightarrow> set_voltage v s = (Inl (VoltageExceededError code), s)"
    using set_voltage_range_error by blast
  have 2: "value_to_code v (current_set_factor s) = Inr code \<and>
      (code < 0 \<or> dac_resolution (props s) \<le> code)
      \<longrightarrow> set_current v s = (Inl (CurrentExceededError code), s)"
    using set_current_range_error by blast
  have 3: "sent (connection (snd (set_voltage v s))) = sent (connection s) \<or>
      (\<exists>c. 0 \<le> c \<and> c < dac_resolution (props s) \<and>
         sent (connection (snd (set_voltage v s)))
           = sent (connection s) @ ['':V '' @ format_d c @ [LF]])"
    using set_voltage_sent [of v s] by blast
  have 4: "sent (connection (snd (set_current v s))) = sent (connection s) \<or>
      (\<exists>c. 0 \<le> c \<and> c < dac_resolution (props s) \<and>
         sent (connection (snd (set_current v s)))
           = sent (connection s) @ ['':C '' @ format_d c @ [LF]])"
    using set_current_sent [of v s] by blast
  from 1 2 3 4 show ?thesis by blast
qed

theorem range_check_rejects_witness:
  "value_to_code (Fin 300) (voltage_set_factor (example_device [''OK\<newline>''])) = Inr 300 \<and>
   dac_resolution (props (example_device [''OK\<newline>''])) \<le> 300 \<and>
   set_voltage (Fin 300) (example_device [''OK\<newline>''])
     = (Inl (VoltageExceededError 300), example_device [''OK\<newline>'']) \<and>
   value_to_code (Fin (- 2)) (current_set_factor (example_device [''OK\<newline>''])) = Inr (- 2) \<and>
   set_current (Fin (- 2)) (example_device [''OK\<newline>''])
     = (Inl (CurrentExceededError (- 2)), example_device [''OK\<newline>''])"
proof -
  let ?s = "example_device [''OK\<newline>'']"
  have a: "value_to_code (Fin 300) (voltage_set_factor ?s) = Inr 300"
    by (simp add: device_eval)
  have b: "dac_resolution (props ?s) \<le> 300"
    by (simp add: example_device_def example_props_def)
  have c: "value_to_code (Fin (- 2)) (current_set_factor ?s) = Inr (- 2)"
    by (simp add: device_eval)
  from range_check_rejects [of "Fin 300" ?s 300] a b
  have d: "set_voltage (Fin 300) ?s = (Inl (VoltageExceededError 300), ?s)" by blast
  from range_check_rejects [of "Fin (- 2)" ?s "- 2"] c
  have e: "set_current (Fin (- 2)) ?s = (Inl (CurrentExceededError (- 2)), ?s)" by simp
  from a b c d e show ?thesis by blast
qed

text \<open>
  C3. When the code of the requested value \<open>v\<close> is in range and the controller answers
  \<^verbatim>\<open>OK\<close>, the setter succeeds and the stored setpoint, which the attribute read
  returns, is the float product of the code \<^verbatim>\<open>math.floor(v / set_factor)\<close> and the set
  factor, not \<open>v\<close>: at the set factor 1.0 the request 1.5 stores 1.0.
\<close>

theorem commit_stores_quantised:
  "(value_to_code v (voltage_set_factor s) = Inr code \<and>
      0 \<le> code \<and> code < dac_resolution (props s) \<and>
      fst (receive (send ('':V '' @ format_d code) (connection s))) = Inr (str ''OK'')
      \<longrightarrow> fst (set_voltage v s) = Inr () \<and>
          voltage_setpoint (snd (set_voltage v s))
            = fmul (Fin (of_int code)) (voltage_set_factor s) \<and>
          read_voltage_setpoint (snd (set_voltage v s))
            = fmul (Fin (of_int code)) (voltage_set_factor s)) \<and>
   (value_to_code v (current_set_factor s) = Inr code \<and>
      0 \<le> code \<and> code < dac_resolution (props s) \<and>
      fst (receive (send ('':C '' @ format_d code) (connection s))) = Inr (str ''OK'')
      \<longrightarrow> fst (set_current v s) = Inr () \<and>
          current_setpoint (snd (set_current v s))
            = fmul (Fin (of_int code)) (current_set_factor s) \<and>
          read_current_setpoint (snd (set_current v s))
            = fmul (Fin (of_int code)) (current_set_factor s))"
proof -
  have 1: "fst (set_voltage v s) = Inr () \<and>
          voltage_setpoint (snd (set_voltage v s))
            = fmul (Fin (of_int code)) (voltage_set_factor s) \<and>
          read_voltage_setpoint (snd (set_voltage v s))
            = fmul (Fin (of_int code)) (voltage_set_factor s)"
    if h: "value_to_code v (voltage_set_factor s) = Inr code"
      "0 \<le> code" "code < dac_resolution (props s)"
      "fst (receive (send ('':V '' @ format_d code) (connection s))) = Inr (str ''OK'')"
    using set_voltage_in_range [OF h(1,2,3) code_to_value_product [OF h(1)]] h(4)
    by (simp add: split_beta read_voltage_setpoint_def)
  have 2: "fst (set_current v s) = Inr () \<and>
          current_setpoint (snd (set_current v s))
            = fmul (Fin (of_int code)) (current_set_factor s) \<and>
          read_current_setpoint (snd (set_current v s))
            = fmul (Fin (of_int code)) (current_set_factor s)"
    if h: "value_to_code v (current_set_factor s) = Inr code"
      "0 \<le> code" "code < dac_resolution (props s)"
      "fst (receive (send ('':C '' @ format_d code) (connection s))) = Inr (str ''OK'')"
    using set_current_in_range [OF h(1,2,3) code_to_value_product [OF h(1)]] h(4)
    by (simp add: split_beta read_current_setpoint_def)
  from 1 2 show ?thesis by blast
qed

theorem commit_stores_quantised_witness:
  "value_to_code (Fin (3 / 2)) (voltage_set_factor (example_device [''OK\<newline>''])) = Inr 1 \<and>
   (1::int) < dac_resolution (props (example_device [''OK\<newline>''])) \<and>
   fst (receive (send ('':V '' @ format_d 1) (connection (example_device [''OK\<newline>'']))))
     = Inr (str ''OK'') \<and>
   fst (set_voltage (Fin (3 / 2)) (example_device [''OK\<newline>''])) = Inr () \<and>
   voltage_setpoint (snd (set_voltage (Fin (3 / 2)) (example_device [''OK\<newline>'']))) = Fin 1 \<and>
   read_voltage_setpoint (snd (set_voltage (Fin (3 / 2)) (example_device [''OK\<newline>'']))) = Fin 1 \<and>
   value_to_code (Fin (7 / 2)) (current_set_factor (example_device [''OK\<newline>''])) = Inr 3 \<and>
   fst (receive (send ('':C '' @ format_d 3) (connection (example_device [''OK\<newline>'']))))
     = Inr (str ''OK'') \<and>
   fst (set_current (Fin (7 / 2)) (example_device [''OK\<newline>''])) = Inr () \<and>
   current_setpoint (snd (set_current (Fin (7 / 2)) (example_device [''OK\<newline>'']))) = Fin 3 \<and>
   read_current_setpoint (snd (set_current (Fin (7 / 2)) (example_device [''OK\<newline>'']))) = Fin 3"
proof -
  let ?s = "example_device [''OK\<newline>'']"
  have v1: "value_to_code (Fin (3 / 2)) (voltage_set_factor ?s) = Inr 1"
    by (simp add: device_eval)
  have v2: "(0::int) \<le> 1 \<and> 1 < dac_resolution (props ?s)"
    by (simp add: example_device_def example_props_def)
  have v4: "fst (receive (send ('':V '' @ format_d 1) (connection ?s))) = Inr (str ''OK'')"
    by (simp add: device_eval)
  have v5: "fmul (Fin (of_int 1)) (voltage_set_factor ?s) = Fin 1"
    by (simp add: device_eval)
  have c1: "value_to_code (Fin (7 / 2)) (current_set_factor ?s) = Inr 3"
    by (simp add: device_eval)
  have c2: "(0::int) \<le> 3 \<and> 3 < dac_resolution (props ?s)"
    by (simp add: example_device_def example_props_def)
  have c4: "fst (receive (send ('':C '' @ format_d 3) (connection ?s))) = Inr (str ''OK'')"
    by (simp add: device_eval)
  have c5: "fmul (Fin (of_int 3)) (current_set_factor ?s) = Fin 3"
    by (simp add: device_eval)
  from commit_stores_quantised [of "Fin (3 / 2)" ?s 1] v1 v2 v4 v5
  have v: "fst (set_voltage (Fin (3 / 2)) ?s) = Inr () \<and>
      voltage_setpoint (snd (set_voltage (Fin (3 / 2)) ?s)) = Fin 1 \<and>
      read_voltage_setpoint (snd (set_voltage (Fin (3 / 2)) ?s)) = Fin 1"
    by simp
  from commit_stores_quantised [of "Fin (7 / 2)" ?s 3] c1 c2 c4 c5
  have c: "fst (set_current (Fin (7 / 2)) ?s) = Inr () \<and>
      current_setpoint (snd (set_current (Fin (7 / 2)) ?s)) = Fin 3 \<and>
      read_current_setpoint (snd (set_current (Fin (7 / 2)) ?s)) = Fin 3"
    by simp
  from v1 v2 v4 v c1 c4 c show ?thesis by blast
qed

text \<open>
  C4. When the code of the requested value is in range and the response read after the
  set command is any string other than \<^verbatim>\<open>OK\<close> (the empty string included), the setter
  raises \<^verbatim>\<open>ValueError\<close>, the exception this code uses for an unexpected response, and the
  stored setpoint of the channel is the one before the call. More generally, whatever
  exception a setter raises, the setpoint of its channel is unchanged.
\<close>

theorem unexpected_response_rejected:
  "(value_to_code v (voltage_set_factor s) = Inr code \<and>
      0 \<le> code \<and> code < dac_resolution (props s) \<and>
      fst (receive (send ('':V '' @ format_d code) (connection s))) = Inr r \<and>
      r \<noteq> str ''OK''
      \<longrightarrow> fst (set_voltage v s) = Inl ValueError \<and>
          voltage_setpoint (snd (set_voltage v s)) = voltage_setpoint s) \<and>
   (value_to_code v (current_set_factor s) = Inr code \<and>
      0 \<le> code \<and> code < dac_resolution (props s) \<and>
      fst (receive (send ('':C '' @ format_d code) (connection s))) = Inr r \<and>
      r \<noteq> str ''OK''
      \<longrightarrow> fst (set_current v s) = Inl ValueError \<and>
          current_setpoint (snd (set_current v s)) = current_setpoint s) \<and>
   (fst (set_voltage v s) = Inl e
      \<longrightarrow> voltage_setpoint (snd (set_voltage v s)) = voltage_setpoint s) \<and>
   (fst (set_current v s) = Inl e
      \<longrightarrow> current_setpoint (snd (set_current v s)) = current_setpoint s)"
proof -
  have 1: "fst (set_voltage v s) = Inl ValueError \<and>
          voltage_setpoint (snd (set_voltage v s)) = voltage_setpoint s"
    if h: "value_to_code v (voltage_set_factor s) = Inr code"
      "0 \<le> code" "code < dac_resolution (props s)"
      "fst (receive (send ('':V '' @ format_d code) (connection s))) = Inr r"
      "r \<noteq> str ''OK''"
    using set_voltage_in_range [OF h(1,2,3) code_to_value_product [OF h(1)]] h(4,5)
    by (simp add: split_beta)
  have 2: "fst (set_current v s) = Inl ValueError \<and>
          current_setpoint (snd (set_current v s)) = current_setpoint s"
    if h: "value_to_code v (current_set_factor s) = Inr code"
      "0 \<le> code" "code < dac_resolution (props s)"
      "fst (receive (send ('':C '' @ format_d code) (connection s))) = Inr r"
      "r \<noteq> str ''OK''"
    using set_current_in_range [OF h(1,2,3) code_to_value_product [OF h(1)]] h(4,5)
    by (simp add: split_beta)
  have 3: "fst (set_voltage v s) = Inl e
      \<longrightarrow> voltage_setpoint (snd (set_voltage v s)) = voltage_setpoint s"
    using set_voltage_error_keeps by blast
  have 4: "fst (set_current v s) = Inl e
      \<longrightarrow> current_setpoint (snd (set_current v s)) = current_setpoint s"
    using set_current_error_keeps by blast
  from 1 2 3 4 show ?thesis by blast
qed

theorem unexpected_response_rejected_witness:
  "value_to_code (Fin (3 / 2)) (voltage_set_factor (example_device [''FAIL\<newline>''])) = Inr 1 \<and>
   (1::int) < dac_resolution (props (example_device [''FAIL\<newline>''])) \<and>
   fst (receive (send ('':V '' @ format_d 1) (connection (example_device [''FAIL\<newline>'']))))
     = Inr (str ''FAIL'') \<and>
   str ''FAIL'' \<noteq> str ''OK'' \<and>
   fst (set_voltage (Fin (3 / 2)) (example_device [''FAIL\<newline>''])) = Inl ValueError \<and>
   voltage_setpoint (snd (set_voltage (Fin (3 / 2)) (example_device [''FAIL\<newline>''])))
     = Fin 5 \<and>
   value_to_code (Fin (7 / 2)) (current_set_factor (example_device [''\<newline>''])) = Inr 3 \<and>
   fst (receive (send ('':C '' @ format_d 3) (connection (example_device [''\<newline>'']))))
     = Inr [] \<and>
   fst (set_current (Fin (7 / 2)) (example_device [''\<newline>''])) = Inl ValueError \<and>
   current_setpoint (snd (set_current (Fin (7 / 2)) (example_device [''\<newline>'']))) = Fin 2 \<and>
   fst (set_voltage (Fin 300) (example_device [])) = Inl (VoltageExceededError 300) \<and>
   voltage_setpoint (snd (set_voltage (Fin 300) (example_device []))) = Fin 5 \<and>
   fst (set_current (Fin 1) (example_device [''OK''])) = Inl NameError \<and>
   current_setpoint (snd (set_current (Fin 1) (example_device [''OK'']))) = Fin 2"
proof -
  let ?s = "example_device [''FAIL\<newline>'']"
  let ?t = "example_device [''\<newline>'']"
  have v1: "value_to_code (Fin (3 / 2)) (voltage_set_factor ?s) = Inr 1"
    by (simp add: device_eval)
  have v2: "(0::int) \<le> 1 \<and> 1 < dac_resolution (props ?s)"
    by (simp add: example_device_def example_props_def)
  have v4: "fst (receive (send ('':V '' @ format_d 1) (connection ?s))) = Inr (str ''FAIL'')"
    by (simp add: device_eval)
  have v5: "str ''FAIL'' \<noteq> str ''OK''" by (simp add: str_def)
  have v6: "voltage_setpoint ?s = Fin 5" by (simp add: example_device_def)
  have c1: "value_to_code (Fin (7 / 2)) (current_set_factor ?t) = Inr 3"
    by (simp add: device_eval)
  have c2: "(0::int) \<le> 3 \<and> 3 < dac_resolution (props ?t)"
    by (simp add: example_device_def example_props_def)
  have c4: "fst (receive (send ('':C '' @ format_d 3) (connection ?t))) = Inr []"
    by (simp add: device_eval)
  have c5: "[] \<noteq> str ''OK''" by (simp add: str_def)
  have c6: "current_setpoint ?t = Fin 2" by (simp add: example_device_def)
  have r1: "fst (set_voltage (Fin 300) (example_device [])) = Inl (VoltageExceededError 300)"
    by (simp add: device_eval)
  have r2: "voltage_setpoint (example_device []) = Fin 5" by (simp add: example_device_def)
  have n1: "fst (set_current (Fin 1) (example_device [''OK''])) = Inl NameError"
    by (simp add: device_eval)
  have n2: "current_setpoint (example_device [''OK'']) = Fin 2" by (simp add: example_device_def)
  from unexpected_response_rejected [of "Fin (3 / 2)" ?s 1 "str ''FAIL''"] v1 v2 v4 v5 v6
  have v: "fst (set_voltage (Fin (3 / 2)) ?s) = Inl ValueError \<and>
      voltage_setpoint (snd (set_voltage (Fin (3 / 2)) ?s)) = Fin 5"
    by simp
  from unexpected_response_rejected [of "Fin (7 / 2)" ?t 3 "[]"] c1 c2 c4 c5 c6
  have c: "fst (set_current (Fin (7 / 2)) ?t) = Inl ValueError \<and>
      current_setpoint (snd (set_current (Fin (7 / 2)) ?t)) = Fin 2"
    by simp
  from unexpected_response_rejected
         [of "Fin 300" "example_device []" 0 "[]" "VoltageExceededError 300"] r1 r2
  have r: "voltage_setpoint (snd (set_voltage (Fin 300) (example_device []))) = Fin 5"
    by simp
  from unexpected_response_rejected
         [of "Fin 1" "example_device [''OK'']" 0 "[]" NameError] n1 n2
  have n: "current_setpoint (snd (set_current (Fin 1) (example_device [''OK'']))) = Fin 2"
    by simp
  from v1 v2 v4 v5 v c1 c4 c r1 r n1 n show ?thesis by blast
qed

section \<open>Claims about \<^verbatim>\<open>enable\<close>\<close>

text \<open>
  C8. \<^verbatim>\<open>enable\<close> commits the voltage setpoint 0, then the current setpoint 0, and only
  then sends \<^verbatim>\<open>:ON\<close>: when it returns, the frames written are \<^verbatim>\<open>:V 0\<close>, \<^verbatim>\<open>:C 0\<close>, \<^verbatim>\<open>:ON\<close>
  in this order, both commits were acknowledged, the value returned is the response
  read after \<^verbatim>\<open>:ON\<close>, and (for finite set factors) both stored setpoints are 0. When
  a commit raises, \<^verbatim>\<open>enable\<close> raises the same exception and \<^verbatim>\<open>:ON\<close> is not among the
  frames written.
\<close>

theorem enable_order:
  "(enable s = (Inr r, s') \<longrightarrow>
      sent (connection s') = sent (connection s) @ ['':V 0\<newline>'', '':C 0\<newline>'', '':ON\<newline>''] \<and>
      fst (set_voltage (Fin 0) s) = Inr () \<and>
      fst (set_current (Fin 0) (snd (set_voltage (Fin 0) s))) = Inr () \<and>
      Inr r = fst (receive (send '':ON''
                (connection (snd (set_current (Fin 0) (snd (set_voltage (Fin 0) s)))))))) \<and>
   (fst (set_voltage (Fin 0) s) = Inl e \<longrightarrow>
      enable s = (Inl e, snd (set_voltage (Fin 0) s)) \<and>
      (sent (connection (snd (enable s))) = sent (connection s) \<or>
       sent (connection (snd (enable s))) = sent (connection s) @ ['':V 0\<newline>''])) \<and>
   (fst (set_voltage (Fin 0) s) = Inr () \<and>
    fst (set_current (Fin 0) (snd (set_voltage (Fin 0) s))) = Inl e \<longrightarrow>
      enable s = (Inl e, snd (set_current (Fin 0) (snd (set_voltage (Fin 0) s)))) \<and>
      (sent (connection (snd (enable s))) = sent (connection s) @ ['':V 0\<newline>''] \<or>
       sent (connection (snd (enable s)))
         = sent (connection s) @ ['':V 0\<newline>'', '':C 0\<newline>''])) \<and>
   (enable s = (Inr r, s') \<and> voltage_set_factor s = Fin fv \<and> current_set_factor s = Fin fc
      \<longrightarrow> voltage_setpoint s' = Fin 0 \<and> current_setpoint s' = Fin 0)"
proof -
  let ?s1 = "snd (set_voltage (Fin 0) s)"
  let ?s2 = "snd (set_current (Fin 0) ?s1)"
  have ok: "fst (set_voltage (Fin 0) s) = Inr () \<and> fst (set_current (Fin 0) ?s1) = Inr () \<and>
            enable s = query '':ON'' ?s2"
    if "enable s = (Inr r, s')"
    using that by (auto simp: enable_eq split: sum.splits)
  have sent2: "sent (connection ?s2) = sent (connection s) @ ['':V 0\<newline>'', '':C 0\<newline>'']"
    if "fst (set_voltage (Fin 0) s) = Inr ()" "fst (set_current (Fin 0) ?s1) = Inr ()"
    using set_voltage_zero_ok(1) [OF that(1)] set_current_zero_ok(1) [OF that(2)] by simp
  have 1: "enable s = (Inr r, s') \<longrightarrow>
      sent (connection s') = sent (connection s) @ ['':V 0\<newline>'', '':C 0\<newline>'', '':ON\<newline>''] \<and>
      fst (set_voltage (Fin 0) s) = Inr () \<and>
      fst (set_current (Fin 0) ?s1) = Inr () \<and>
      Inr r = fst (receive (send '':ON'' (connection ?s2)))"
  proof
    assume en: "enable s = (Inr r, s')"
    from ok [OF en] have a: "fst (set_voltage (Fin 0) s) = Inr ()"
      and b: "fst (set_current (Fin 0) ?s1) = Inr ()"
      and c: "enable s = query '':ON'' ?s2" by auto
    from c en have q: "query '':ON'' ?s2 = (Inr r, s')" by simp
    then have "Inr r = fst (receive (send '':ON'' (connection ?s2)))"
      and "s' = ?s2\<lparr>connection := snd (receive (send '':ON'' (connection ?s2)))\<rparr>"
      by (simp_all add: query_eq)
    moreover from this(2) have "sent (connection s') = sent (connection ?s2) @ ['':ON\<newline>'']"
      by (simp add: receive_sent send_def LF_def)
    ultimately show "sent (connection s') = sent (connection s) @ ['':V 0\<newline>'', '':C 0\<newline>'', '':ON\<newline>''] \<and>
      fst (set_voltage (Fin 0) s) = Inr () \<and>
      fst (set_current (Fin 0) ?s1) = Inr () \<and>
      Inr r = fst (receive (send '':ON'' (connection ?s2)))"
      using a b sent2 [OF a b] by simp
  qed
  have vz: "sent (connection (snd (set_voltage (Fin 0) t))) = sent (connection t) \<or>
            sent (connection (snd (set_voltage (Fin 0) t))) = sent (connection t) @ ['':V 0\<newline>'']" for t
    using set_voltage_sent [of "Fin 0" t] value_to_code_zero [of "voltage_set_factor t"]
    by (auto simp: format_d_def LF_def)
  have cz: "sent (connection (snd (set_current (Fin 0) t))) = sent (connection t) \<or>
            sent (connection (snd (set_current (Fin 0) t))) = sent (connection t) @ ['':C 0\<newline>'']" for t
    using set_current_sent [of "Fin 0" t] value_to_code_zero [of "current_set_factor t"]
    by (auto simp: format_d_def LF_def)
  have 2: "fst (set_voltage (Fin 0) s) = Inl e \<longrightarrow>
      enable s = (Inl e, ?s1) \<and>
      (sent (connection (snd (enable s))) = sent (connection s) \<or>
       sent (connection (snd (enable s))) = sent (connection s) @ ['':V 0\<newline>''])"
    using vz [of s] by (auto simp: enable_eq)
  have 3: "fst (set_voltage (Fin 0) s) = Inr () \<and> fst (set_current (Fin 0) ?s1) = Inl e \<longrightarrow>
      enable s = (Inl e, ?s2) \<and>
      (sent (connection (snd (enable s))) = sent (connection s) @ ['':V 0\<newline>''] \<or>
       sent (connection (snd (enable s)))
         = sent (connection s) @ ['':V 0\<newline>'', '':C 0\<newline>''])"
  proof
    assume h: "fst (set_voltage (Fin 0) s) = Inr () \<and> fst (set_current (Fin 0) ?s1) = Inl e"
    then have en: "enable s = (Inl e, ?s2)" by (simp add: enable_eq)
    from h have "sent (connection ?s1) = sent (connection s) @ ['':V 0\<newline>'']"
      using set_voltage_zero_ok(1) by blast
    with cz [of ?s1] en show "enable s = (Inl e, ?s2) \<and>
      (sent (connection (snd (enable s))) = sent (connection s) @ ['':V 0\<newline>''] \<or>
       sent (connection (snd (enable s)))
         = sent (connection s) @ ['':V 0\<newline>'', '':C 0\<newline>''])"
      by auto
  qed
  have 4: "enable s = (Inr r, s') \<and> voltage_set_factor s = Fin fv \<and> current_set_factor s = Fin fc
      \<longrightarrow> voltage_setpoint s' = Fin 0 \<and> current_setpoint s' = Fin 0"
  proof
    assume h: "enable s = (Inr r, s') \<and> voltage_set_factor s = Fin fv \<and> current_set_factor s = Fin fc"
    then have en: "enable s = (Inr r, s')" by simp
    from ok [OF en] have a: "fst (set_voltage (Fin 0) s) = Inr ()"
      and b: "fst (set_current (Fin 0) ?s1) = Inr ()"
      and c: "enable s = query '':ON'' ?s2" by auto
    from c en have "s' = ?s2\<lparr>connection := snd (receive (send '':ON'' (connection ?s2)))\<rparr>"
      by (simp add: query_eq)
    then have s': "voltage_setpoint s' = voltage_setpoint ?s2" "current_setpoint s' = current_setpoint ?s2"
      by simp_all
    from set_voltage_zero_ok(2) [OF a] h have "voltage_setpoint ?s1 = Fin 0"
      by (auto simp: code_to_value_zero)
    moreover from set_current_zero_ok(2) [OF b] h have "current_setpoint ?s2 = Fin 0"
      by (auto simp: code_to_value_zero set_voltage_frame)
    ultimately show "voltage_setpoint s' = Fin 0 \<and> current_setpoint s' = Fin 0"
      using s' by (simp add: set_current_frame)
  qed
  from 1 2 3 4 show ?thesis by blast
qed

theorem enable_order_witness:
  "enable (example_device [''OK\<newline>'', ''OK\<newline>'', ''ON OK\<newline>''])
     = (Inr (str ''ON OK''),
        (example_device [])
          \<lparr>connection := \<lparr>inbox = [], sent = ['':V 0\<newline>'', '':C 0\<newline>'', '':ON\<newline>'']\<rparr>,
           current_setpoint := Fin 0, voltage_setpoint := Fin 0\<rparr>) \<and>
   sent (connection (snd (enable (example_device [''OK\<newline>'', ''OK\<newline>'', ''ON OK\<newline>'']))))
     = sent (connection (example_device [''OK\<newline>'', ''OK\<newline>'', ''ON OK\<newline>'']))
       @ ['':V 0\<newline>'', '':C 0\<newline>'', '':ON\<newline>''] \<and>
   fst (set_voltage (Fin 0) (example_device [''FAIL\<newline>''])) = Inl ValueError \<and>
   enable (example_device [''FAIL\<newline>''])
     = (Inl ValueError, snd (set_voltage (Fin 0) (example_device [''FAIL\<newline>'']))) \<and>
   fst (set_voltage (Fin 0) (example_device [''OK\<newline>'', ''FAIL\<newline>''])) = Inr () \<and>
   fst (set_current (Fin 0) (snd (set_voltage (Fin 0) (example_device [''OK\<newline>'', ''FAIL\<newline>'']))))
     = Inl ValueError \<and>
   fst (enable (example_device [''OK\<newline>'', ''FAIL\<newline>''])) = Inl ValueError \<and>
   voltage_setpoint (snd (enable (example_device [''OK\<newline>'', ''OK\<newline>'', ''ON OK\<newline>'']))) = Fin 0 \<and>
   current_setpoint (snd (enable (example_device [''OK\<newline>'', ''OK\<newline>'', ''ON OK\<newline>'']))) = Fin 0"
proof -
  let ?s = "example_device [''OK\<newline>'', ''OK\<newline>'', ''ON OK\<newline>'']"
  let ?s' = "(example_device [])
          \<lparr>connection := \<lparr>inbox = [], sent = ['':V 0\<newline>'', '':C 0\<newline>'', '':ON\<newline>'']\<rparr>,
           current_setpoint := Fin 0, voltage_setpoint := Fin 0\<rparr>"
  let ?f = "example_device [''FAIL\<newline>'']"
  let ?g = "example_device [''OK\<newline>'', ''FAIL\<newline>'']"
  have en: "enable ?s = (Inr (str ''ON OK''), ?s')" by (simp add: device_eval)
  have fv: "voltage_set_factor ?s = Fin 1" "current_set_factor ?s = Fin 1"
    by (simp_all add: example_device_def)
  have f1: "fst (set_voltage (Fin 0) ?f) = Inl ValueError" by (simp add: device_eval)
  have g1: "fst (set_voltage (Fin 0) ?g) = Inr ()" by (simp add: device_eval)
  have g2: "fst (set_current (Fin 0) (snd (set_voltage (Fin 0) ?g))) = Inl ValueError"
    by (simp add: device_eval)
  from enable_order [of ?s "str ''ON OK''" ?s' ValueError 1 1] en fv
  have a: "sent (connection ?s') = sent (connection ?s) @ ['':V 0\<newline>'', '':C 0\<newline>'', '':ON\<newline>'']"
    and b: "voltage_setpoint ?s' = Fin 0 \<and> current_setpoint ?s' = Fin 0"
    by blast+
  from enable_order [of ?f "[]" ?f ValueError 1 1] f1
  have c: "enable ?f = (Inl ValueError, snd (set_voltage (Fin 0) ?f))" by blast
  from enable_order [of ?g "[]" ?g ValueError 1 1] g1 g2
  have d: "enable ?g = (Inl ValueError, snd (set_current (Fin 0) (snd (set_voltage (Fin 0) ?g))))"
    by blast
  from en a b c d f1 g1 g2 show ?thesis by simp
qed


section \<open>Claims about the stored setpoints\<close>

text \<open>
  C9. The claim: in every state the device can reach after \<^verbatim>\<open>init_device\<close>, each stored
  setpoint is \<open>k * set_factor\<close> for an integer \<open>k\<close> with \<open>0 \<le> k < dac_resolution\<close>. This
  needs a positive \<^verbatim>\<open>dac_resolution\<close>, which \<^verbatim>\<open>init_device\<close> does not check: with
  \<^verbatim>\<open>dac_resolution = -1\<close> it succeeds and stores the setpoints 0.0, for which no such
  \<open>k\<close> exists.
\<close>

theorem setpoints_quantised_counterexample:
  "reachable (example_props\<lparr>dac_resolution := - 1\<rparr>)
     \<lparr>props = example_props\<lparr>dac_resolution := - 1\<rparr>,
      connection = \<lparr>inbox = [], sent = []\<rparr>,
      voltage_set_factor = Fin (- 256), voltage_get_factor = Fin (1 / 4),
      current_set_factor = Fin (- 256), current_get_factor = Fin (1 / 4),
      filament_current_get_factor = Fin 1,
      current_setpoint = Fin 0, voltage_setpoint = Fin 0\<rparr> \<and>
   \<not> setpoints_quantised
     \<lparr>props = example_props\<lparr>dac_resolution := - 1\<rparr>,
      connection = \<lparr>inbox = [], sent = []\<rparr>,
      voltage_set_factor = Fin (- 256), voltage_get_factor = Fin (1 / 4),
      current_set_factor = Fin (- 256), current_get_factor = Fin (1 / 4),
      filament_current_get_factor = Fin 1,
      current_setpoint = Fin 0, voltage_setpoint = Fin 0\<rparr>"
proof -
  let ?p = "example_props\<lparr>dac_resolution := - 1\<rparr>"
  let ?s = "\<lparr>props = ?p,
      connection = \<lparr>inbox = [], sent = []\<rparr>,
      voltage_set_factor = Fin (- 256), voltage_get_factor = Fin (1 / 4),
      current_set_factor = Fin (- 256), current_get_factor = Fin (1 / 4),
      filament_current_get_factor = Fin 1,
      current_setpoint = Fin 0, voltage_setpoint = Fin 0\<rparr>"
  have "init_device ?p (Some \<lparr>inbox = [], sent = []\<rparr>) = Inr ?s"
    by (simp add: init_device_def factor_def device_eval)
  then have "reachable ?p ?s" by (rule reachable.init)
  moreover have "\<not> setpoints_quantised ?s"
    by (simp add: setpoints_quantised_def quantised_def example_props_def)
  ultimately show ?thesis by blast
qed

text \<open>
  C9 as amended. For a positive \<^verbatim>\<open>dac_resolution\<close> and finite set factors, in every
  state the device can reach after \<^verbatim>\<open>init_device\<close> each stored setpoint, voltage and
  current, is the quantised value \<^verbatim>\<open>1.0 * k * set_factor\<close> of an integer \<open>k\<close> with
  \<open>0 \<le> k < dac_resolution\<close>.
\<close>

theorem reachable_setpoints_quantised:
  assumes "reachable p s" and "0 < dac_resolution p"
    and "voltage_set_factor s = Fin fv" and "current_set_factor s = Fin fc"
  shows "setpoints_quantised s"
proof -
  from assms(1) obtain s0 c where i: "init_device p (Some c) = Inr s0"
    and st: "setpoint_step s0 s"
    using reachable_from_init by blast
  from st assms(3,4) have f: "voltage_set_factor s0 = Fin fv" "current_set_factor s0 = Fin fc"
    by (simp_all add: setpoint_step_def)
  from init_device_Inr [OF i] assms(2) f have "setpoints_quantised s0"
    by (simp add: setpoints_quantised_def quantised_zero)
  with st show ?thesis by (rule setpoint_step_quantised)
qed

theorem reachable_setpoints_quantised_witness:
  "reachable example_props
     ((example_device [])
        \<lparr>connection := \<lparr>inbox = [], sent = ['':V 1\<newline>'']\<rparr>,
         current_setpoint := Fin 0, voltage_setpoint := Fin 1\<rparr>) \<and>
   0 < dac_resolution example_props \<and>
   setpoints_quantised
     ((example_device [])
        \<lparr>connection := \<lparr>inbox = [], sent = ['':V 1\<newline>'']\<rparr>,
         current_setpoint := Fin 0, voltage_setpoint := Fin 1\<rparr>)"
proof -
  let ?i = "(example_device [''OK\<newline>''])\<lparr>current_setpoint := Fin 0, voltage_setpoint := Fin 0\<rparr>"
  let ?s = "(example_device [])
        \<lparr>connection := \<lparr>inbox = [], sent = ['':V 1\<newline>'']\<rparr>,
         current_setpoint := Fin 0, voltage_setpoint := Fin 1\<rparr>"
  have "reachable example_props ?i"
    using example_init [of "[''OK\<newline>'']"] by (rule reachable.init)
  then have "reachable example_props (snd (write_voltage_setpoint (Fin (3 / 2)) ?i))"
    by (rule reachable.write_voltage)
  moreover have "snd (write_voltage_setpoint (Fin (3 / 2)) ?i) = ?s"
    by (simp add: write_voltage_setpoint_def device_eval)
  ultimately have r: "reachable example_props ?s" by simp
  have d: "0 < dac_resolution example_props" by (simp add: example_props_def)
  have f: "voltage_set_factor ?s = Fin 1" "current_set_factor ?s = Fin 1"
    by (simp_all add: example_device_def)
  from reachable_setpoints_quantised [OF r d f] r d show ?thesis by blast
qed


section \<open>Claims about the scaling\<close>

text \<open>
  C6. The claim: whenever the requested value \<open>v\<close> passes the range check, the committed
  setpoint \<^verbatim>\<open>floor(v / set_factor) * set_factor\<close> is at most \<open>v\<close>. The quotient and the
  product are binary64 operations, and each is rounded. With the range 25.6 kV and the
  default resolution 256 the set factor is the float 0.1; the request 6.8 gives the
  quotient 68.0 exactly (the real quotient lies just below 68), hence the code 68, and
  the committed setpoint \<^verbatim>\<open>68 * 0.1 = 6.800000000000001\<close> is above the request.
\<close>

theorem setpoint_above_request_counterexample:
  "reachable (example_props\<lparr>voltage_range := Fin f25_6\<rparr>)
     ((example_device [''OK\<newline>''])
        \<lparr>props := example_props\<lparr>voltage_range := Fin f25_6\<rparr>,
         voltage_set_factor := Fin (3602879701896397 / 2 ^ 55),
         voltage_get_factor := Fin (3602879701896397 / 2 ^ 57),
         current_setpoint := Fin 0, voltage_setpoint := Fin 0\<rparr>) \<and>
   value_to_code (Fin f6_8) (Fin (3602879701896397 / 2 ^ 55)) = Inr 68 \<and>
   fst (set_voltage (Fin f6_8)
     ((example_device [''OK\<newline>''])
        \<lparr>props := example_props\<lparr>voltage_range := Fin f25_6\<rparr>,
         voltage_set_factor := Fin (3602879701896397 / 2 ^ 55),
         voltage_get_factor := Fin (3602879701896397 / 2 ^ 57),
         current_setpoint := Fin 0, voltage_setpoint := Fin 0\<rparr>)) = Inr () \<and>
   voltage_setpoint (snd (set_voltage (Fin f6_8)
     ((example_device [''OK\<newline>''])
        \<lparr>props := example_props\<lparr>voltage_range := Fin f25_6\<rparr>,
         voltage_set_factor := Fin (3602879701896397 / 2 ^ 55),
         voltage_get_factor := Fin (3602879701896397 / 2 ^ 57),
         current_setpoint := Fin 0, voltage_setpoint := Fin 0\<rparr>)))
     = Fin (1914029841632461 / 2 ^ 48) \<and>
   \<not> fle (voltage_setpoint (snd (set_voltage (Fin f6_8)
     ((example_device [''OK\<newline>''])
        \<lparr>props := example_props\<lparr>voltage_range := Fin f25_6\<rparr>,
         voltage_set_factor := Fin (3602879701896397 / 2 ^ 55),
         voltage_get_factor := Fin (3602879701896397 / 2 ^ 57),
         current_setpoint := Fin 0, voltage_setpoint := Fin 0\<rparr>))))
       (Fin f6_8)"
proof -
  let ?p = "example_props\<lparr>voltage_range := Fin f25_6\<rparr>"
  let ?f = "Fin (3602879701896397 / 2 ^ 55)"
  let ?s = "(example_device [''OK\<newline>''])
        \<lparr>props := ?p,
         voltage_set_factor := ?f,
         voltage_get_factor := Fin (3602879701896397 / 2 ^ 57),
         current_setpoint := Fin 0, voltage_setpoint := Fin 0\<rparr>"
  have "factor (Fin 256) 256 = Inr (Fin 1)" "factor (Fin 256) 1024 = Inr (Fin (1 / 4))"
    "factor (Fin 1024) 1024 = Inr (Fin 1)"
    by (simp_all add: factor_def device_eval)
  then have "init_device ?p (Some \<lparr>inbox = [''OK\<newline>''], sent = []\<rparr>) = Inr ?s"
    using factor_25_6 factor_25_6_adc
    by (simp add: init_device_def example_device_def example_props_def)
  then have r: "reachable ?p ?s" by (rule reachable.init)
  have a: "value_to_code (Fin f6_8) (voltage_set_factor ?s) = Inr 68"
    using code_6_8 by simp
  have b: "(0::int) \<le> 68" "68 < dac_resolution (props ?s)"
    by (simp_all add: example_props_def)
  have c: "code_to_value 68 (voltage_set_factor ?s) = Inr (Fin (1914029841632461 / 2 ^ 48))"
    using value_68 by simp
  have d: "receive (send ('':V '' @ format_d 68) (connection ?s))
      = (Inr (str ''OK''), \<lparr>inbox = [], sent = ['':V 68\<newline>'']\<rparr>)"
    by (simp add: device_eval)
  from set_voltage_in_range [OF a b c] d
  have v: "set_voltage (Fin f6_8) ?s
      = (Inr (), ?s\<lparr>connection := \<lparr>inbox = [], sent = ['':V 68\<newline>'']\<rparr>,
                     voltage_setpoint := Fin (1914029841632461 / 2 ^ 48)\<rparr>)"
    by simp
  have "\<not> fle (Fin (1914029841632461 / 2 ^ 48)) (Fin f6_8)"
    by (simp add: f6_8_def)
  with r code_6_8 v show ?thesis by simp
qed

text \<open>
  A negative range, which \<^verbatim>\<open>init_device\<close> accepts, reverses the order even without
  rounding: at the range -256 kV the set factor is -1.0, the request -1.5 has the code 1
  and commits -1.0.
\<close>

lemma negative_factor_setpoint_above_request:
  "reachable (example_props\<lparr>voltage_range := Fin (- 256)\<rparr>)
     ((example_device [''OK\<newline>''])
        \<lparr>props := example_props\<lparr>voltage_range := Fin (- 256)\<rparr>,
         voltage_set_factor := Fin (- 1), voltage_get_factor := Fin (- (1 / 4)),
         current_setpoint := Fin 0, voltage_setpoint := Fin 0\<rparr>) \<and>
   value_to_code (Fin (- (3 / 2))) (Fin (- 1)) = Inr 1 \<and>
   fst (set_voltage (Fin (- (3 / 2)))
     ((example_device [''OK\<newline>''])
        \<lparr>props := example_props\<lparr>voltage_range := Fin (- 256)\<rparr>,
         voltage_set_factor := Fin (- 1), voltage_get_factor := Fin (- (1 / 4)),
         current_setpoint := Fin 0, voltage_setpoint := Fin 0\<rparr>)) = Inr () \<and>
   voltage_setpoint (snd (set_voltage (Fin (- (3 / 2)))
     ((example_device [''OK\<newline>''])
        \<lparr>props := example_props\<lparr>voltage_range := Fin (- 256)\<rparr>,
         voltage_set_factor := Fin (- 1), voltage_get_factor := Fin (- (1 / 4)),
         current_setpoint := Fin 0, voltage_setpoint := Fin 0\<rparr>))) = Fin (- 1) \<and>
   \<not> fle (voltage_setpoint (snd (set_voltage (Fin (- (3 / 2)))
     ((example_device [''OK\<newline>''])
        \<lparr>props := example_props\<lparr>voltage_range := Fin (- 256)\<rparr>,
         voltage_set_factor := Fin (- 1), voltage_get_factor := Fin (- (1 / 4)),
         current_setpoint := Fin 0, voltage_setpoint := Fin 0\<rparr>))))
       (Fin (- (3 / 2)))"
proof -
  let ?p = "example_props\<lparr>voltage_range := Fin (- 256)\<rparr>"
  let ?s = "(example_device [''OK\<newline>''])
        \<lparr>props := ?p,
         voltage_set_factor := Fin (- 1), voltage_get_factor := Fin (- (1 / 4)),
         current_setpoint := Fin 0, voltage_setpoint := Fin 0\<rparr>"
  have "init_device ?p (Some \<lparr>inbox = [''OK\<newline>''], sent = []\<rparr>) = Inr ?s"
    by (simp add: init_device_def factor_def device_eval fl_neg_quarter)
  then have r: "reachable ?p ?s" by (rule reachable.init)
  have c: "value_to_code (Fin (- (3 / 2))) (Fin (- 1)) = Inr 1"
    by (simp add: device_eval fl_neg_numeral_half)
  have v: "set_voltage (Fin (- (3 / 2))) ?s =
    (Inr (), ?s\<lparr>connection := \<lparr>inbox = [], sent = ['':V 1\<newline>'']\<rparr>, voltage_setpoint := Fin (- 1)\<rparr>)"
    by (simp add: device_eval fl_neg_numeral_half)
  from r c v show ?thesis by simp
qed

text \<open>
  C6 as amended. For a positive set factor, a committed setpoint that is finite exceeds
  the requested value \<open>v\<close> by no more than the rounding slack of \<open>v\<close> and the factor;
  and when neither the quotient \<open>v / set_factor\<close> nor the product
  \<open>code * set_factor\<close> is rounded, the committed setpoint is
  \<open>\<lfloor>v / set_factor\<rfloor> * set_factor\<close> and is at most \<open>v\<close>.
\<close>

theorem setpoint_below_request_up_to_rounding:
  "(voltage_set_factor s = Fin f \<and> 0 < f \<and>
    fst (set_voltage (Fin x) s) = Inr () \<and>
    voltage_setpoint (snd (set_voltage (Fin x) s)) = Fin y
    \<longrightarrow> y \<le> x + rounding_slack x f) \<and>
   (voltage_set_factor s = Fin f \<and> 0 < f \<and>
    fl (x / f) = Fin (x / f) \<and>
    fl (of_int \<lfloor>x / f\<rfloor> * f) = Fin (of_int \<lfloor>x / f\<rfloor> * f) \<and>
    fst (set_voltage (Fin x) s) = Inr ()
    \<longrightarrow> voltage_setpoint (snd (set_voltage (Fin x) s)) = Fin (of_int \<lfloor>x / f\<rfloor> * f) \<and>
        fle (voltage_setpoint (snd (set_voltage (Fin x) s))) (Fin x)) \<and>
   (current_set_factor s = Fin f \<and> 0 < f \<and>
    fst (set_current (Fin x) s) = Inr () \<and>
    current_setpoint (snd (set_current (Fin x) s)) = Fin y
    \<longrightarrow> y \<le> x + rounding_slack x f) \<and>
   (current_set_factor s = Fin f \<and> 0 < f \<and>
    fl (x / f) = Fin (x / f) \<and>
    fl (of_int \<lfloor>x / f\<rfloor> * f) = Fin (of_int \<lfloor>x / f\<rfloor> * f) \<and>
    fst (set_current (Fin x) s) = Inr ()
    \<longrightarrow> current_setpoint (snd (set_current (Fin x) s)) = Fin (of_int \<lfloor>x / f\<rfloor> * f) \<and>
        fle (current_setpoint (snd (set_current (Fin x) s))) (Fin x))"
proof -
  have 1: "y \<le> x + rounding_slack x f"
    if h: "voltage_set_factor s = Fin f" "0 < f" "fst (set_voltage (Fin x) s) = Inr ()"
      "voltage_setpoint (snd (set_voltage (Fin x) s)) = Fin y"
  proof -
    from set_voltage_ok [OF h(3)] h(1,4) obtain code
      where "value_to_code (Fin x) (Fin f) = Inr code"
        and "code_to_value code (Fin f) = Inr (Fin y)"
      by auto
    with h(2) show ?thesis by (rule quantised_value_error(1))
  qed
  have 2: "voltage_setpoint (snd (set_voltage (Fin x) s)) = Fin (of_int \<lfloor>x / f\<rfloor> * f) \<and>
        fle (voltage_setpoint (snd (set_voltage (Fin x) s))) (Fin x)"
    if h: "voltage_set_factor s = Fin f" "0 < f" "fl (x / f) = Fin (x / f)"
      "fl (of_int \<lfloor>x / f\<rfloor> * f) = Fin (of_int \<lfloor>x / f\<rfloor> * f)"
      "fst (set_voltage (Fin x) s) = Inr ()"
  proof -
    from set_voltage_ok [OF h(5)] h(1) obtain code q
      where c: "value_to_code (Fin x) (Fin f) = Inr code"
        and q: "code_to_value code (Fin f) = Inr q"
        and v: "voltage_setpoint (snd (set_voltage (Fin x) s)) = q"
      by auto
    note e = exact_quantised [OF h(2,3)]
    from c e(1) have "code = \<lfloor>x / f\<rfloor>" by simp
    with q e(2) h(4) have "q = Fin (of_int \<lfloor>x / f\<rfloor> * f)" by simp
    with v e(3) show ?thesis by simp
  qed
  have 3: "y \<le> x + rounding_slack x f"
    if h: "current_set_factor s = Fin f" "0 < f" "fst (set_current (Fin x) s) = Inr ()"
      "current_setpoint (snd (set_current (Fin x) s)) = Fin y"
  proof -
    from set_current_ok [OF h(3)] h(1,4) obtain code
      where "value_to_code (Fin x) (Fin f) = Inr code"
        and "code_to_value code (Fin f) = Inr (Fin y)"
      by auto
    with h(2) show ?thesis by (rule quantised_value_error(1))
  qed
  have 4: "current_setpoint (snd (set_current (Fin x) s)) = Fin (of_int \<lfloor>x / f\<rfloor> * f) \<and>
        fle (current_setpoint (snd (set_current (Fin x) s))) (Fin x)"
    if h: "current_set_factor s = Fin f" "0 < f" "fl (x / f) = Fin (x / f)"
      "fl (of_int \<lfloor>x / f\<rfloor> * f) = Fin (of_int \<lfloor>x / f\<rfloor> * f)"
      "fst (set_current (Fin x) s) = Inr ()"
  proof -
    from set_current_ok [OF h(5)] h(1) obtain code q
      where c: "value_to_code (Fin x) (Fin f) = Inr code"
        and q: "code_to_value code (Fin f) = Inr q"
        and v: "current_setpoint (snd (set_current (Fin x) s)) = q"
      by auto
    note e = exact_quantised [OF h(2,3)]
    from c e(1) have "code = \<lfloor>x / f\<rfloor>" by simp
    with q e(2) h(4) have "q = Fin (of_int \<lfloor>x / f\<rfloor> * f)" by simp
    with v e(3) show ?thesis by simp
  qed
  from 1 2 3 4 show ?thesis by blast
qed

theorem setpoint_below_request_up_to_rounding_witness:
  "voltage_set_factor (example_device [''OK\<newline>'']) = Fin 1 \<and> (0::real) < 1 \<and>
   fl (3 / 2 / 1) = Fin (3 / 2 / 1) \<and>
   fl (of_int \<lfloor>3 / 2 / 1 :: real\<rfloor> * 1) = Fin (of_int \<lfloor>3 / 2 / 1 :: real\<rfloor> * 1) \<and>
   fst (set_voltage (Fin (3 / 2)) (example_device [''OK\<newline>''])) = Inr () \<and>
   voltage_setpoint (snd (set_voltage (Fin (3 / 2)) (example_device [''OK\<newline>'']))) = Fin 1 \<and>
   fle (voltage_setpoint (snd (set_voltage (Fin (3 / 2)) (example_device [''OK\<newline>'']))))
     (Fin (3 / 2)) \<and>
   current_set_factor (example_device [''OK\<newline>'']) = Fin 1 \<and>
   fst (set_current (Fin (3 / 2)) (example_device [''OK\<newline>''])) = Inr () \<and>
   current_setpoint (snd (set_current (Fin (3 / 2)) (example_device [''OK\<newline>'']))) = Fin 1 \<and>
   fle (current_setpoint (snd (set_current (Fin (3 / 2)) (example_device [''OK\<newline>'']))))
     (Fin (3 / 2)) \<and>
   (1::real) \<le> 3 / 2 + rounding_slack (3 / 2) 1"
proof -
  let ?s = "example_device [''OK\<newline>'']"
  have h1: "voltage_set_factor ?s = Fin 1" "current_set_factor ?s = Fin 1"
    by (simp_all add: example_device_def)
  have h2: "(0::real) < 1" by simp
  have h4: "fl (3 / 2 / 1) = Fin (3 / 2 / 1)" by (simp add: fl_eval)
  have h5: "fl (of_int \<lfloor>3 / 2 / 1 :: real\<rfloor> * 1) = Fin (of_int \<lfloor>3 / 2 / 1 :: real\<rfloor> * 1)"
    by (simp add: fl_eval)
  have h6: "fst (set_voltage (Fin (3 / 2)) ?s) = Inr ()" by (simp add: device_eval)
  have h7: "fst (set_current (Fin (3 / 2)) ?s) = Inr ()" by (simp add: device_eval)
  have h8: "voltage_setpoint (snd (set_voltage (Fin (3 / 2)) ?s)) = Fin 1"
    by (simp add: device_eval)
  have h9: "current_setpoint (snd (set_current (Fin (3 / 2)) ?s)) = Fin 1"
    by (simp add: device_eval)
  note t = setpoint_below_request_up_to_rounding [of ?s 1 "3 / 2" 1]
  from t h1 h2 h6 h8 have a: "(1::real) \<le> 3 / 2 + rounding_slack (3 / 2) 1" by blast
  from t h1 h2 h4 h5 h6 h7
  have "fle (voltage_setpoint (snd (set_voltage (Fin (3 / 2)) ?s))) (Fin (3 / 2)) \<and>
        fle (current_setpoint (snd (set_current (Fin (3 / 2)) ?s))) (Fin (3 / 2))"
    by blast
  with a h1 h2 h4 h5 h6 h7 h8 h9 show ?thesis by blast
qed

text \<open>
  C7. The claim: for a range \<open>R > 0\<close> and a resolution \<open>N > 0\<close> the round trip of \<open>x\<close>
  through its code differs from \<open>x\<close> by at most \<open>R / N\<close>. In binary64 the bound is missed
  by a rounding error: for \<open>R = 1.0\<close>, \<open>N = 100\<close> and \<open>x = 0.59\<close> the code is 58 (the
  quotient \<^verbatim>\<open>0.59 / 0.01\<close> is 58.99999999999999), the round trip gives 0.58, and the
  exact distance of the two floats exceeds 0.01.
\<close>

theorem round_trip_error_counterexample:
  "round_trip (Fin f0_59) (Fin 1) 100 = Inr (Fin (5224175567749775 / 2 ^ 53)) \<and>
   \<not> \<bar>5224175567749775 / 2 ^ 53 - f0_59\<bar> \<le> (1::real) / 100"
proof -
  have "round_trip (Fin f0_59) (Fin 1) 100 = Inr (Fin (5224175567749775 / 2 ^ 53))"
    using factor_1_100 code_0_59 value_58 by (simp add: round_trip_def)
  moreover have "\<not> \<bar>5224175567749775 / 2 ^ 53 - f0_59\<bar> \<le> (1::real) / 100"
    by (simp add: f0_59_def)
  ultimately show ?thesis by blast
qed

text \<open>
  C7 as amended. For \<open>R > 0\<close> and \<open>N > 0\<close> with the factor \<open>f\<close> computed from them, a
  finite round trip of \<open>x\<close> differs from \<open>x\<close> by at most \<open>f\<close> and the rounding slack of
  \<open>x\<close> and \<open>f\<close>. For \<open>N < 2^53\<close>, when none of the operations is rounded (\<open>R\<close> is a
  float, and the factor \<open>R / N\<close>, the quotient and the product are exact), the round trip
  of \<open>x\<close> is \<open>\<lfloor>x / (R / N)\<rfloor> * (R / N)\<close> and differs from \<open>x\<close> by at most \<open>R / N\<close>. It is
  lossy: the round trip of 1.5 at \<open>R = 256\<close>, \<open>N = 256\<close> is 1.0.
\<close>

theorem round_trip_error_up_to_rounding:
  "(0 < r \<and> 0 < n \<and> factor (Fin r) n = Inr (Fin f) \<and>
    round_trip (Fin x) (Fin r) n = Inr (Fin y)
    \<longrightarrow> 0 < f \<and> \<bar>y - x\<bar> \<le> f + rounding_slack x f) \<and>
   (0 < r \<and> 0 < n \<and> n < 2 ^ 53 \<and> fl r = Fin r \<and>
    fl (r / of_int n) = Fin (r / of_int n) \<and>
    fl (x / (r / of_int n)) = Fin (x / (r / of_int n)) \<and>
    fl (of_int \<lfloor>x / (r / of_int n)\<rfloor> * (r / of_int n))
      = Fin (of_int \<lfloor>x / (r / of_int n)\<rfloor> * (r / of_int n))
    \<longrightarrow> round_trip (Fin x) (Fin r) n
          = Inr (Fin (of_int \<lfloor>x / (r / of_int n)\<rfloor> * (r / of_int n))) \<and>
        \<bar>of_int \<lfloor>x / (r / of_int n)\<rfloor> * (r / of_int n) - x\<bar> \<le> r / of_int n) \<and>
   round_trip (Fin (3 / 2)) (Fin 256) 256 = Inr (Fin 1)"
proof -
  have 0: "0 < f \<and> \<bar>y - x\<bar> \<le> f + rounding_slack x f"
    if h: "0 < r" "0 < n" "factor (Fin r) n = Inr (Fin f)"
      "round_trip (Fin x) (Fin r) n = Inr (Fin y)"
  proof -
    from h(3,4) obtain k where k: "value_to_code (Fin x) (Fin f) = Inr k"
      and y: "code_to_value k (Fin f) = Inr (Fin y)"
      by (auto simp: round_trip_def split: sum.splits)
    from h(1) have "0 \<le> r" by simp
    from factor_nonneg [OF this h(2,3)] value_to_code_Fin(1) [OF k] have f: "0 < f" by simp
    with quantised_value_error(2) [OF f k y] show ?thesis by simp
  qed
  have 1: "round_trip (Fin x) (Fin r) n
          = Inr (Fin (of_int \<lfloor>x / (r / of_int n)\<rfloor> * (r / of_int n))) \<and>
        \<bar>of_int \<lfloor>x / (r / of_int n)\<rfloor> * (r / of_int n) - x\<bar> \<le> r / of_int n"
    if h: "0 < r" "0 < n" "n < 2 ^ 53" "fl r = Fin r"
      "fl (r / of_int n) = Fin (r / of_int n)"
      "fl (x / (r / of_int n)) = Fin (x / (r / of_int n))"
      "fl (of_int \<lfloor>x / (r / of_int n)\<rfloor> * (r / of_int n))
        = Fin (of_int \<lfloor>x / (r / of_int n)\<rfloor> * (r / of_int n))"
  proof -
    define f where "f = r / of_int n"
    from h(1,2) have f: "0 < f" by (simp add: f_def)
    from h(2,3) have "\<bar>n\<bar> < 2 ^ 53" by simp
    then have n: "float_of_int n = Inr (Fin (of_int n))" by (rule float_of_int_small)
    from h(2) have "Fin (real_of_int n) \<noteq> Fin 0" by simp
    with n h(4,5) have fac: "factor (Fin r) n = Inr (Fin f)"
      by (simp add: factor_def fdiv_def f_def)
    from h(6) have d: "fl (x / f) = Fin (x / f)" by (simp only: f_def)
    from h(7) have m: "fl (of_int \<lfloor>x / f\<rfloor> * f) = Fin (of_int \<lfloor>x / f\<rfloor> * f)"
      by (simp only: f_def)
    note q = exact_quantised [OF f d]
    from fac q(1,2) m have rt: "round_trip (Fin x) (Fin r) n = Inr (Fin (of_int \<lfloor>x / f\<rfloor> * f))"
      by (simp add: round_trip_def)
    from q(3,4) have "\<bar>of_int \<lfloor>x / f\<rfloor> * f - x\<bar> \<le> f" by linarith
    with rt show ?thesis by (simp only: f_def)
  qed
  have 2: "round_trip (Fin (3 / 2)) (Fin 256) 256 = Inr (Fin 1)"
    by (simp add: round_trip_def factor_def device_eval)
  from 0 1 2 show ?thesis by blast
qed

theorem round_trip_error_up_to_rounding_witness:
  "(0::real) < 256 \<and> (0::int) < 256 \<and> (256::int) < 2 ^ 53 \<and> fl 256 = Fin 256 \<and>
   factor (Fin 256) 256 = Inr (Fin 1) \<and>
   fl (256 / of_int 256) = Fin (256 / of_int 256) \<and>
   fl (3 / 2 / (256 / of_int 256)) = Fin (3 / 2 / (256 / of_int 256)) \<and>
   fl (of_int \<lfloor>3 / 2 / (256 / of_int 256) :: real\<rfloor> * (256 / of_int 256))
     = Fin (of_int \<lfloor>3 / 2 / (256 / of_int 256) :: real\<rfloor> * (256 / of_int 256)) \<and>
   round_trip (Fin (3 / 2)) (Fin 256) 256 = Inr (Fin 1) \<and>
   \<bar>1 - 3 / 2\<bar> \<le> (256::real) / of_int 256 \<and>
   \<bar>1 - 3 / 2\<bar> \<le> 1 + rounding_slack (3 / 2) 1"
proof -
  have h: "(0::real) < 256" "(0::int) < 256" "(256::int) < 2 ^ 53" "fl 256 = Fin 256"
    "fl (256 / of_int 256) = Fin (256 / of_int 256)"
    "fl (3 / 2 / (256 / of_int 256)) = Fin (3 / 2 / (256 / of_int 256))"
    "fl (of_int \<lfloor>3 / 2 / (256 / of_int 256) :: real\<rfloor> * (256 / of_int 256))
     = Fin (of_int \<lfloor>3 / 2 / (256 / of_int 256) :: real\<rfloor> * (256 / of_int 256))"
    by (simp_all add: fl_eval)
  have g: "factor (Fin 256) 256 = Inr (Fin 1)" by (simp add: factor_def device_eval)
  note t = round_trip_error_up_to_rounding [of 256 256 1 "3 / 2" 1]
  from t have rt: "round_trip (Fin (3 / 2)) (Fin 256) 256 = Inr (Fin 1)" by blast
  from t h(1,2) g rt have a: "\<bar>1 - 3 / 2\<bar> \<le> 1 + rounding_slack (3 / 2) 1" by blast
  from t h
  have "\<bar>of_int \<lfloor>3 / 2 / (256 / of_int 256) :: real\<rfloor> * (256 / of_int 256) - 3 / 2\<bar>
          \<le> (256::real) / of_int 256"
    by blast
  then have "\<bar>1 - 3 / 2\<bar> \<le> (256::real) / of_int 256" by simp
  with h g rt a show ?thesis by blast
qed

end
